theory Spec2Isabelle
  imports Complex_Main "HOL-Library.List_Lexorder" "HOL-Library.Char_ord" "HOL-Library.AList"
begin

section \<open>Errors\<close>

text \<open>
  Every \<open>throw\<close> is a value: \<open>InvalidArgument\<close> is the source's
  \<open>InvalidArgumentError\<close>, \<open>OperationError\<close> its \<open>OperationError\<close>, \<open>TypeError\<close>
  JavaScript's own (a method called on \<open>null\<close>); the others are the kinds of the spec's
  error taxonomy.
\<close>

datatype error =
    InvalidArgument
  | InvalidQuery
  | InvalidUpdate
  | InvalidDocument
  | DuplicateKey
  | ImmutableField
  | OperationError
  | TypeError

section \<open>JSON values\<close>

text \<open>
  Documents, filters, updates and every argument of a public method are JavaScript values.
  An object is an association list in the order \<open>Object.keys\<close> enumerates it; a date is
  its instant.
\<close>

datatype json =
    JNull
  | JBool bool
  | JNum rat
  | JStr string
  | JDate int
  | JArr "json list"
  | JObj "(string \<times> json) list"

text \<open>\<open>key.startsWith("$")\<close>\<close>

definition is_operator_key :: "string \<Rightarrow> bool" where
  "is_operator_key k = (case k of [] \<Rightarrow> False | c # _ \<Rightarrow> c = CHR ''$'')"

text \<open>\<open>Object.keys(x)\<close> for an object \<open>x\<close>; the callers have checked that \<open>x\<close> is one.\<close>

fun object_keys :: "json \<Rightarrow> string list" where
  "object_keys (JObj kvs) = map fst kvs"
| "object_keys _ = []"

text \<open>Property access \<open>x.k\<close>: \<open>None\<close> is JavaScript's \<open>undefined\<close>.\<close>

fun get_prop :: "json \<Rightarrow> string \<Rightarrow> json option" where
  "get_prop (JObj kvs) k = map_of kvs k"
| "get_prop _ k = None"

text \<open>\<open>!x\<close> for a JavaScript value \<open>x\<close>.\<close>

fun falsy :: "json \<Rightarrow> bool" where
  "falsy JNull = True"
| "falsy (JBool b) = (\<not> b)"
| "falsy (JNum n) = (n = 0)"
| "falsy (JStr s) = (s = [])"
| "falsy _ = False"

lemma size_map_of_lt: "map_of kvs k = Some v \<Longrightarrow> size v < size (JObj kvs)"
  by (induction kvs) (auto split: if_splits)

lemma size_snd_mem_lt: "p \<in> set kvs \<Longrightarrow> size (snd p) < size (JObj kvs)"
  by (induction kvs) auto

lemma size_mem_lt: "x \<in> set xs \<Longrightarrow> size x < size (JArr xs)"
  by (induction xs) auto

lemma size_nth_lt: "i < length xs \<Longrightarrow> size (xs ! i) < size (JArr xs)"
  by (rule size_mem_lt) simp

subsection \<open>ObjectUtils: deep structural equality\<close>

text \<open>
  Modelled from the spec: \<open>ObjectUtils\<close> is not among the source files. Its deep equality
  is "order-insensitive for object keys, order-sensitive for arrays; dates equal by
  instant" (the spec, 4.1). Stored numbers are finite, so the NaN clause has no case here.
\<close>

function deep_equal :: "json \<Rightarrow> json \<Rightarrow> bool" where
  "deep_equal (JArr xs) y =
     (case y of
        JArr ys \<Rightarrow> length xs = length ys \<and>
                   list_all (\<lambda>p. deep_equal (fst p) (snd p)) (zip xs ys)
      | _ \<Rightarrow> False)"
| "deep_equal (JObj a) y =
     (case y of
        JObj b \<Rightarrow> length a = length b \<and>
                  list_all (\<lambda>p. case map_of b (fst p) of
                                   None \<Rightarrow> False
                                 | Some v \<Rightarrow> deep_equal (snd p) v) a
      | _ \<Rightarrow> False)"
| "deep_equal JNull y = (y = JNull)"
| "deep_equal (JBool b) y = (y = JBool b)"
| "deep_equal (JNum n) y = (y = JNum n)"
| "deep_equal (JStr s) y = (y = JStr s)"
| "deep_equal (JDate t) y = (y = JDate t)"
  by pat_completeness auto
termination
proof (relation "measure (\<lambda>(x, y). size x)", goal_cases)
  case 1
  show ?case by simp
next
  case (2 xs y ys p)
  then have "fst p \<in> set xs"
    by (metis in_set_zipE prod.collapse)
  then show ?case
    using size_mem_lt [of "fst p" xs] by (simp add: case_prod_beta)
next
  case (3 a y b p v)
  then show ?case
    using size_snd_mem_lt [of p a] by simp
qed

section \<open>FieldPath\<close>

text \<open>
  Modelled from the spec: \<open>FieldPath\<close> is not among the source files. It "parses
  \<open>"a.b.0.c"\<close> into an ordered sequence of segments. A numeric segment addressing an array
  index is treated as a string key when the parent is an object and as an integer index
  when the parent is an array. Traversal returns missing (distinct from explicit null) when
  any intermediate segment is absent" (the spec, 4.1). \<open>None\<close> is "missing".
\<close>

fun split_path :: "string \<Rightarrow> string list" where
  "split_path [] = [[]]"
| "split_path (c # cs) =
     (if c = CHR ''.'' then [] # split_path cs
      else (case split_path cs of
              [] \<Rightarrow> [[c]]
            | seg # segs \<Rightarrow> (c # seg) # segs))"

definition is_digit :: "char \<Rightarrow> bool" where
  "is_digit c = (CHR ''0'' \<le> c \<and> c \<le> CHR ''9'')"

definition is_index_segment :: "string \<Rightarrow> bool" where
  "is_index_segment seg = (seg \<noteq> [] \<and> list_all is_digit seg)"

definition segment_index :: "string \<Rightarrow> nat" where
  "segment_index seg = foldl (\<lambda>n c. 10 * n + (of_char c - of_char CHR ''0'')) 0 seg"

text \<open>
  Modelled from the spec: the values a path reaches in a document. "If a path segment traverses an array and the
  next segment is not numeric, the predicate is satisfied if it holds for any element of
  the array (existential semantics). Numeric segments select a specific index" (the spec,
  4.2): every element of such an array contributes the values it reaches.
\<close>

function path_values :: "string list \<Rightarrow> json \<Rightarrow> json option list" where
  "path_values [] v = [Some v]"
| "path_values (seg # rest) (JObj kvs) =
     (case map_of kvs seg of
        None \<Rightarrow> [None]
      | Some v \<Rightarrow> path_values rest v)"
| "path_values (seg # rest) (JArr xs) =
     (if is_index_segment seg then
        (if segment_index seg < length xs
         then path_values rest (xs ! segment_index seg)
         else [None])
      else concat (map (path_values (seg # rest)) xs))"
| "path_values (seg # rest) JNull = [None]"
| "path_values (seg # rest) (JBool b) = [None]"
| "path_values (seg # rest) (JNum n) = [None]"
| "path_values (seg # rest) (JStr s) = [None]"
| "path_values (seg # rest) (JDate t) = [None]"
  by pat_completeness auto
termination
proof (relation "measure (\<lambda>(path, v). size v)", goal_cases)
  case 1
  show ?case by simp
next
  case (2 seg rest kvs v)
  then show ?case
    using size_map_of_lt [of kvs seg v] by simp
next
  case (3 seg rest xs)
  then show ?case
    using size_nth_lt [of "segment_index seg" xs] by simp
next
  case (4 seg rest xs x)
  then show ?case
    using size_mem_lt [of x xs] by simp
qed

section \<open>QueryEngine\<close>

text \<open>
  Modelled from the spec: \<open>QueryEngine\<close> is not among the source files. The definitions
  follow the filter grammar, the field operators, the comparison semantics, the rule for
  paths against arrays and the errors of the spec, 4.2.
\<close>

text \<open>
  Modelled from the spec: the comparisons of the query engine. "Numbers compared
  numerically; strings lexicographically; dates by instant; booleans as false < true.
  Cross-type comparisons never match and never error."
\<close>

fun json_less :: "json \<Rightarrow> json \<Rightarrow> bool" where
  "json_less (JNum a) (JNum b) = (a < b)"
| "json_less (JStr a) (JStr b) = (a < b)"
| "json_less (JDate a) (JDate b) = (a < b)"
| "json_less (JBool a) (JBool b) = (\<not> a \<and> b)"
| "json_less _ _ = False"

fun json_less_eq :: "json \<Rightarrow> json \<Rightarrow> bool" where
  "json_less_eq (JNum a) (JNum b) = (a \<le> b)"
| "json_less_eq (JStr a) (JStr b) = (a \<le> b)"
| "json_less_eq (JDate a) (JDate b) = (a \<le> b)"
| "json_less_eq (JBool a) (JBool b) = (a \<le> b)"
| "json_less_eq _ _ = False"

text \<open>
  Modelled from the spec: the required field operators. \<open>$eq\<close> and \<open>$ne\<close> use deep structural equality;
  \<open>$exists\<close> "matches on presence/absence including explicit null as present".
\<close>

definition field_operators :: "string list" where
  "field_operators =
     [''$eq'', ''$ne'', ''$gt'', ''$gte'', ''$lt'', ''$lte'', ''$in'', ''$nin'', ''$exists'']"

definition valid_operator :: "string \<Rightarrow> json \<Rightarrow> bool" where
  "valid_operator op arg =
     (if op = ''$in'' \<or> op = ''$nin'' then (case arg of JArr _ \<Rightarrow> True | _ \<Rightarrow> False)
      else if op = ''$exists'' then (case arg of JBool _ \<Rightarrow> True | _ \<Rightarrow> False)
      else op \<in> set field_operators)"

definition is_member :: "json \<Rightarrow> json \<Rightarrow> bool" where
  "is_member v arg = (case arg of JArr xs \<Rightarrow> list_ex (deep_equal v) xs | _ \<Rightarrow> False)"

definition eval_operator :: "string \<Rightarrow> json \<Rightarrow> json option \<Rightarrow> bool" where
  "eval_operator op arg ov =
     (if op = ''$eq'' then (case ov of None \<Rightarrow> False | Some v \<Rightarrow> deep_equal v arg)
      else if op = ''$ne'' then (case ov of None \<Rightarrow> True | Some v \<Rightarrow> \<not> deep_equal v arg)
      else if op = ''$gt'' then (case ov of None \<Rightarrow> False | Some v \<Rightarrow> json_less arg v)
      else if op = ''$gte'' then (case ov of None \<Rightarrow> False | Some v \<Rightarrow> json_less_eq arg v)
      else if op = ''$lt'' then (case ov of None \<Rightarrow> False | Some v \<Rightarrow> json_less v arg)
      else if op = ''$lte'' then (case ov of None \<Rightarrow> False | Some v \<Rightarrow> json_less_eq v arg)
      else if op = ''$in'' then (case ov of None \<Rightarrow> False | Some v \<Rightarrow> is_member v arg)
      else if op = ''$nin'' then (case ov of None \<Rightarrow> True | Some v \<Rightarrow> \<not> is_member v arg)
      else if op = ''$exists'' then (arg = JBool (ov \<noteq> None))
      else False)"

text \<open>
  Modelled from the spec: the value of a field predicate "is either a literal (implicit equality) or a
  field-operator object \<open>{ $op: value, ... }\<close>": an object with an operator-shaped key is
  read as the latter.
\<close>

definition is_operator_object :: "json \<Rightarrow> bool" where
  "is_operator_object c =
     (case c of JObj ops \<Rightarrow> list_ex (\<lambda>p. is_operator_key (fst p)) ops | _ \<Rightarrow> False)"

definition valid_condition :: "json \<Rightarrow> bool" where
  "valid_condition c =
     (case c of
        JObj ops \<Rightarrow>
          (if list_ex (\<lambda>p. is_operator_key (fst p)) ops
           then list_all (\<lambda>p. valid_operator (fst p) (snd p)) ops
           else True)
      | _ \<Rightarrow> True)"

definition eval_condition :: "json \<Rightarrow> json option \<Rightarrow> bool" where
  "eval_condition c ov =
     (case c of
        JObj ops \<Rightarrow>
          (if list_ex (\<lambda>p. is_operator_key (fst p)) ops
           then list_all (\<lambda>p. eval_operator (fst p) (snd p) ov) ops
           else (case ov of None \<Rightarrow> False | Some v \<Rightarrow> deep_equal v c))
      | _ \<Rightarrow> (case ov of None \<Rightarrow> False | Some v \<Rightarrow> deep_equal v c))"

definition eval_field :: "json \<Rightarrow> string \<Rightarrow> json \<Rightarrow> bool" where
  "eval_field d key c = list_ex (eval_condition c) (path_values (split_path key) d)"


text \<open>
  Modelled from the spec: a filter is an object whose keys all hold: a key starting with \<open>$\<close> is a logical
  operator (\<open>$and\<close>, \<open>$or\<close>, "each taking a non-empty array of sub-filters"), any other key
  a field predicate. "Filter depth and subfilter count are bounded; exceeding the bound
  fails with InvalidQuery", as do an unknown operator and a malformed operator value: all
  of these are properties of the filter alone, which \<open>valid_filter\<close> decides. The spec
  names no bounds, so they are parameters: \<open>width\<close> sub-filters under one logical operator
  and \<open>depth\<close> levels of logical operators.
\<close>

function valid_filter :: "nat \<Rightarrow> nat \<Rightarrow> json \<Rightarrow> bool" where
  "valid_filter width depth (JObj kvs) =
     list_all (\<lambda>p.
        if is_operator_key (fst p) then
          (fst p = ''$and'' \<or> fst p = ''$or'') \<and>
          (case snd p of
             JArr fs \<Rightarrow> fs \<noteq> [] \<and> length fs \<le> width \<and> 0 < depth \<and>
                        list_all (valid_filter width (depth - 1)) fs
           | _ \<Rightarrow> False)
        else valid_condition (snd p)) kvs"
| "valid_filter width depth (JArr xs) = False"
| "valid_filter width depth JNull = False"
| "valid_filter width depth (JBool b) = False"
| "valid_filter width depth (JNum n) = False"
| "valid_filter width depth (JStr s) = False"
| "valid_filter width depth (JDate t) = False"
  by pat_completeness auto
termination
proof (relation "measure (\<lambda>(width, depth, f). size f)", goal_cases)
  case 1
  show ?case by simp
next
  case (2 width depth kvs p fs f)
  then show ?case
    using size_snd_mem_lt [of p kvs] size_mem_lt [of f fs] by simp
qed

function eval_filter :: "json \<Rightarrow> json \<Rightarrow> bool" where
  "eval_filter d (JObj kvs) =
     list_all (\<lambda>p.
        if is_operator_key (fst p) then
          (if fst p = ''$and'' then
             (case snd p of JArr fs \<Rightarrow> list_all (eval_filter d) fs | _ \<Rightarrow> False)
           else if fst p = ''$or'' then
             (case snd p of JArr fs \<Rightarrow> list_ex (eval_filter d) fs | _ \<Rightarrow> False)
           else False)
        else eval_field d (fst p) (snd p)) kvs"
| "eval_filter d (JArr xs) = False"
| "eval_filter d JNull = False"
| "eval_filter d (JBool b) = False"
| "eval_filter d (JNum n) = False"
| "eval_filter d (JStr s) = False"
| "eval_filter d (JDate t) = False"
  by pat_completeness auto
termination
proof (relation "measure (\<lambda>(d, f). size f)", goal_cases)
  case 1
  show ?case by simp
next
  case (2 d kvs p fs f)
  then show ?case
    using size_snd_mem_lt [of p kvs] size_mem_lt [of f fs] by simp
next
  case (3 d kvs p fs f)
  then show ?case
    using size_snd_mem_lt [of p kvs] size_mem_lt [of f fs] by simp
qed

text \<open>
  Modelled from the spec: the public contract of the query engine,
  \<open>matches(document, filter)\<close>, "plus \<open>findFirst\<close>, \<open>findAll\<close>,
  \<open>count\<close> helpers over an iterable of documents".
\<close>

record query_limits =
  maxSubfilters :: nat
  maxDepth :: nat

definition filter_ok :: "query_limits \<Rightarrow> json \<Rightarrow> bool" where
  "filter_ok L f = valid_filter (maxSubfilters L) (maxDepth L) f"

definition matches :: "query_limits \<Rightarrow> json \<Rightarrow> json \<Rightarrow> error + bool" where
  "matches L d f = (if filter_ok L f then Inr (eval_filter d f) else Inl InvalidQuery)"

definition findFirst :: "query_limits \<Rightarrow> json list \<Rightarrow> json \<Rightarrow> error + json option" where
  "findFirst L ds f =
     (if filter_ok L f then Inr (find (\<lambda>d. eval_filter d f) ds) else Inl InvalidQuery)"

definition findAll :: "query_limits \<Rightarrow> json list \<Rightarrow> json \<Rightarrow> error + json list" where
  "findAll L ds f =
     (if filter_ok L f then Inr (filter (\<lambda>d. eval_filter d f) ds) else Inl InvalidQuery)"

definition count :: "query_limits \<Rightarrow> json list \<Rightarrow> json \<Rightarrow> error + nat" where
  "count L ds f =
     (if filter_ok L f then Inr (length (filter (\<lambda>d. eval_filter d f) ds))
      else Inl InvalidQuery)"


section \<open>UpdateEngine, identifiers and the clock\<close>

text \<open>
  Modelled from the spec: \<open>UpdateEngine\<close> is not among the source files. Its public contract
  is \<open>apply(document, update) \<rightarrow> newDocument\<close>, failing with an error of the taxonomy (the
  spec, 4.3). What it computes is left open: it is the parameter \<open>UpdateEngine_apply\<close>, and
  every theorem below holds for each such function. The other parameters of a call are the
  identifier the generator would hand out ("assigns \<open>_id\<close> if absent (UUID-shaped string)"),
  the reading of the clock, and the bounds of the query engine.
\<close>

record deps =
  limits :: query_limits
  UpdateEngine_apply :: "json \<Rightarrow> json \<Rightarrow> error + json"
  generateId :: string
  now :: nat

section \<open>Validate\<close>

text \<open>
  Modelled from the spec: class \<open>Validate\<close> is not among the source files. What each check
  accepts is read off its call sites in Collection.js, whose comments say "disallow empty
  objects", "forbid mixing operators and document fields", "require operators only" and
  "contains no operators"; a failed check throws the \<open>InvalidArgumentError\<close> that the
  methods of Collection.js declare ("null/wrong-shape inputs to any public method", the
  spec, 7).
\<close>

definition Validate_object :: "json \<Rightarrow> bool \<Rightarrow> error + unit" where
  "Validate_object v allowEmpty =
     (case v of
        JObj kvs \<Rightarrow> if kvs = [] \<and> \<not> allowEmpty then Inl InvalidArgument else Inr ()
      | _ \<Rightarrow> Inl InvalidArgument)"

definition Validate_nonEmptyString :: "json option \<Rightarrow> error + unit" where
  "Validate_nonEmptyString v =
     (case v of
        Some (JStr s) \<Rightarrow> if s = [] then Inl InvalidArgument else Inr ()
      | _ \<Rightarrow> Inl InvalidArgument)"

datatype update_options = NoOptions | RequireOperators | ForbidOperators

definition Validate_validateUpdateObject :: "json \<Rightarrow> update_options \<Rightarrow> error + unit" where
  "Validate_validateUpdateObject update opts =
     (let keys = object_keys update;
          ops = filter is_operator_key keys
      in case opts of
           NoOptions \<Rightarrow>
             if ops \<noteq> [] \<and> length ops \<noteq> length keys then Inl InvalidArgument else Inr ()
         | RequireOperators \<Rightarrow>
             if ops = [] \<or> length ops \<noteq> length keys then Inl InvalidArgument else Inr ()
         | ForbidOperators \<Rightarrow>
             if ops \<noteq> [] then Inl InvalidArgument else Inr ())"

section \<open>CollectionMetadata\<close>

text \<open>
  Modelled from the spec: \<open>CollectionMetadata\<close> is not among the source files. It is
  "\<open>{ name, fileHandle, created, lastUpdated, documentCount, modificationToken }\<close>" (the
  spec, 3). The constructor takes the name and the file handle from its arguments and the
  other fields from the stored metadata object, or fresh ones when there is none;
  \<open>setDocumentCount\<close> and \<open>updateLastModified\<close> do what their names say; \<open>toJSON\<close> is the
  record itself.
\<close>

record metadata =
  md_name :: string
  md_fileHandle :: string
  md_created :: nat
  md_lastUpdated :: nat
  md_documentCount :: nat
  md_modificationToken :: string

definition CollectionMetadata_new :: "nat \<Rightarrow> string \<Rightarrow> string \<Rightarrow> metadata option \<Rightarrow> metadata" where
  "CollectionMetadata_new t nm fileId metadataObj =
     (case metadataObj of
        None \<Rightarrow> \<lparr>md_name = nm, md_fileHandle = fileId, md_created = t, md_lastUpdated = t,
                  md_documentCount = 0, md_modificationToken = []\<rparr>
      | Some m \<Rightarrow> m\<lparr>md_name := nm, md_fileHandle := fileId\<rparr>)"

definition setDocumentCount :: "nat \<Rightarrow> metadata \<Rightarrow> metadata" where
  "setDocumentCount n m = m\<lparr>md_documentCount := n\<rparr>"

definition updateLastModified :: "nat \<Rightarrow> metadata \<Rightarrow> metadata" where
  "updateLastModified t m = m\<lparr>md_lastUpdated := t\<rparr>"

section \<open>DocumentOperations\<close>

text \<open>
  Modelled from the spec: \<open>DocumentOperations\<close> is not among the source files. It
  "maintains the in-memory documents map for one collection" (the spec, 4.4): the
  association list \<open>documents\<close>, in the order the map is enumerated; a new key takes the
  place the enumeration gives it, a replaced entry keeps its place. The functions carry the names under which
  Collection.js calls them. A by-id function is given the JavaScript value the caller
  passes; one that is not a non-empty string is a wrong-shape input. The by-id functions
  return a count and never fail on an absent id: Collection.js tests
  \<open>result.modifiedCount > 0\<close> and \<open>result.deletedCount > 0\<close>.
\<close>

type_synonym docs = "(string \<times> json) list"

definition requireId :: "json option \<Rightarrow> error + string" where
  "requireId v =
     (case v of
        Some (JStr i) \<Rightarrow> if i = [] then Inl InvalidArgument else Inr i
      | _ \<Rightarrow> Inl InvalidArgument)"

text \<open>Modelled from the spec: \<open>insert\<close> "rejects operator-shaped keys anywhere".\<close>

function has_operator_keys :: "json \<Rightarrow> bool" where
  "has_operator_keys (JObj kvs) =
     list_ex (\<lambda>p. is_operator_key (fst p) \<or> has_operator_keys (snd p)) kvs"
| "has_operator_keys (JArr xs) = list_ex has_operator_keys xs"
| "has_operator_keys JNull = False"
| "has_operator_keys (JBool b) = False"
| "has_operator_keys (JNum n) = False"
| "has_operator_keys (JStr s) = False"
| "has_operator_keys (JDate t) = False"
  by pat_completeness auto
termination
proof (relation "measure size", goal_cases)
  case 1
  show ?case by simp
next
  case (2 kvs p)
  then show ?case
    using size_snd_mem_lt [of p kvs] by simp
next
  case (3 xs x)
  then show ?case
    using size_mem_lt [of x xs] by simp
qed

text \<open>
  The documents map is a plain JavaScript object (\<open>this._documents\<close>). Such an object
  enumerates first those of its keys that are array indices (the decimal numerals without a
  leading zero, below \<open>2^32 - 1 = 4294967295\<close>), in ascending numeric order, and then its
  other keys in the order in which they were created. Numerals without a leading zero are
  compared by their lengths and, at the same length, as strings. \<open>assignNew\<close> is the
  assignment \<open>documents[i] = d\<close> for a key \<open>i\<close> that the map does not hold yet: the new
  entry takes its place in the enumeration.
\<close>

definition index_less :: "string \<Rightarrow> string \<Rightarrow> bool" where
  "index_less a b = (length a < length b \<or> (length a = length b \<and> a < b))"

definition is_array_index :: "string \<Rightarrow> bool" where
  "is_array_index k =
     (is_index_segment k \<and> (k = ''0'' \<or> hd k \<noteq> CHR ''0'') \<and> index_less k ''4294967295'')"

definition assignNew :: "string \<Rightarrow> json \<Rightarrow> docs \<Rightarrow> docs" where
  "assignNew i d ds =
     (if is_array_index i then
        takeWhile (\<lambda>p. is_array_index (fst p) \<and> index_less (fst p) i) ds @
        [(i, d)] @
        dropWhile (\<lambda>p. is_array_index (fst p) \<and> index_less (fst p) i) ds
      else ds @ [(i, d)])"

text \<open>
  Modelled from the spec: \<open>insert(doc)\<close> "assigns \<open>_id\<close> if absent (UUID-shaped string); rejects duplicates
  \<rightarrow> DuplicateKey; rejects operator-shaped keys anywhere \<rightarrow> InvalidDocument". The result is
  the identifier, the stored document and the new map.
\<close>

definition insertDocument :: "deps \<Rightarrow> docs \<Rightarrow> json \<Rightarrow> error + (string \<times> json \<times> docs)" where
  "insertDocument D ds doc =
     (case doc of
        JObj kvs \<Rightarrow>
          if has_operator_keys doc then Inl InvalidDocument
          else
            (case map_of kvs ''_id'' of
               None \<Rightarrow>
                 (let i = generateId D; d = JObj (kvs @ [(''_id'', JStr i)])
                  in if map_of ds i \<noteq> None then Inl DuplicateKey
                     else Inr (i, d, assignNew i d ds))
             | Some v \<Rightarrow>
                 (case requireId (Some v) of
                    Inl e \<Rightarrow> Inl e
                  | Inr i \<Rightarrow>
                      if map_of ds i \<noteq> None then Inl DuplicateKey
                      else Inr (i, doc, assignNew i doc ds)))
      | _ \<Rightarrow> Inl InvalidArgument)"

text \<open>
  Modelled from the spec: \<open>findAll()\<close>, \<open>findById(id)\<close>, \<open>findByFilter(filter)\<close>,
  \<open>findAllByFilter(filter)\<close> and \<open>countByFilter(filter)\<close>. The lookup by id is the
  "direct map lookup" of the spec, 4.5; the others "delegate to QueryEngine".
\<close>

definition findAllDocuments :: "docs \<Rightarrow> json list" where
  "findAllDocuments ds = map snd ds"

definition findDocumentById :: "docs \<Rightarrow> json option \<Rightarrow> error + json option" where
  "findDocumentById ds idv =
     (case requireId idv of Inl e \<Rightarrow> Inl e | Inr i \<Rightarrow> Inr (map_of ds i))"

definition findByQuery :: "deps \<Rightarrow> docs \<Rightarrow> json \<Rightarrow> error + json option" where
  "findByQuery D ds f = findFirst (limits D) (findAllDocuments ds) f"

definition findMultipleByQuery :: "deps \<Rightarrow> docs \<Rightarrow> json \<Rightarrow> error + json list" where
  "findMultipleByQuery D ds f = findAll (limits D) (findAllDocuments ds) f"

definition countByQuery :: "deps \<Rightarrow> docs \<Rightarrow> json \<Rightarrow> error + nat" where
  "countByQuery D ds f = count (limits D) (findAllDocuments ds) f"

definition DocumentOperations_countDocuments :: "docs \<Rightarrow> nat" where
  "DocumentOperations_countDocuments ds = length ds"

text \<open>
  Modelled from the spec: \<open>updateByIdWithOperators(id, update)\<close> "delegates to UpdateEngine; returns
  \<open>{matched, modified}\<close> where \<open>modified=0\<close> iff resulting document is structurally equal to
  the prior one". The first component of the result is \<open>modifiedCount\<close>.
\<close>

definition updateDocumentWithOperators ::
  "deps \<Rightarrow> docs \<Rightarrow> json option \<Rightarrow> json \<Rightarrow> error + (nat \<times> docs)" where
  "updateDocumentWithOperators D ds idv update =
     (case requireId idv of
        Inl e \<Rightarrow> Inl e
      | Inr i \<Rightarrow>
          (case map_of ds i of
             None \<Rightarrow> Inr (0, ds)
           | Some d \<Rightarrow>
               (case UpdateEngine_apply D d update of
                  Inl e \<Rightarrow> Inl e
                | Inr d' \<Rightarrow>
                    if deep_equal d' d then Inr (0, ds)
                    else Inr (1, AList.update i d' ds))))"

text \<open>
  Modelled from the spec: \<open>replaceById(id, doc)\<close> "validates replacement has no operator keys; preserves \<open>_id\<close>
  (argument's \<open>_id\<close>, if any, must equal \<open>id\<close> or be absent)". Its count follows the rule the
  spec states for the update by operators.
\<close>

definition with_id :: "string \<Rightarrow> json \<Rightarrow> json" where
  "with_id i doc =
     (case get_prop doc ''_id'' of
        None \<Rightarrow> JObj ((''_id'', JStr i) # (case doc of JObj kvs \<Rightarrow> kvs | _ \<Rightarrow> []))
      | Some _ \<Rightarrow> doc)"

definition replaceDocument :: "docs \<Rightarrow> json option \<Rightarrow> json \<Rightarrow> error + (nat \<times> docs)" where
  "replaceDocument ds idv doc =
     (case requireId idv of
        Inl e \<Rightarrow> Inl e
      | Inr i \<Rightarrow>
          if has_operator_keys doc then Inl InvalidDocument
          else if get_prop doc ''_id'' \<noteq> None \<and> get_prop doc ''_id'' \<noteq> Some (JStr i)
          then Inl InvalidArgument
          else
            (case map_of ds i of
               None \<Rightarrow> Inr (0, ds)
             | Some d \<Rightarrow>
                 if deep_equal (with_id i doc) d then Inr (0, ds)
                 else Inr (1, AList.update i (with_id i doc) ds)))"

text \<open>
  Modelled from the spec: \<open>updateDocument(id, doc)\<close> is the older name of the replacement
  by id; the implementation plan has it "support both replacement and operators".
\<close>

definition updateDocument :: "deps \<Rightarrow> docs \<Rightarrow> json option \<Rightarrow> json \<Rightarrow> error + (nat \<times> docs)" where
  "updateDocument D ds idv doc =
     (if list_ex is_operator_key (object_keys doc)
      then updateDocumentWithOperators D ds idv doc
      else replaceDocument ds idv doc)"

text \<open>
  Modelled from the spec: \<open>deleteById(id)\<close>; the first component of the result is
  \<open>deletedCount\<close>.
\<close>

definition deleteDocument :: "docs \<Rightarrow> json option \<Rightarrow> error + (nat \<times> docs)" where
  "deleteDocument ds idv =
     (case requireId idv of
        Inl e \<Rightarrow> Inl e
      | Inr i \<Rightarrow>
          (case map_of ds i of
             None \<Rightarrow> Inr (0, ds)
           | Some _ \<Rightarrow> Inr (1, AList.delete i ds)))"


section \<open>Collection\<close>

subsection \<open>State\<close>

text \<open>
  Modelled from the spec: \<open>FileService\<close> is not among the source files. "Reads return a
  parsed JSON object; writes take a parsed object" (the spec, 4.6). What \<open>readFile\<close> hands
  back for a handle is a value that is not an object, or an object with its optional
  \<open>documents\<close> and \<open>metadata\<close>; a handle the store does not hold makes \<open>readFile\<close> throw.
\<close>

datatype file_content = NonObject | Blob "docs option" "metadata option"

text \<open>
  The calls to the collaborators that the data flow of a write names (the spec, 2): the
  lock service, the file service and the master index. Collection.js makes the last three
  kinds of call and no other.
\<close>

datatype event =
    LockAcquire
  | LockRelease
  | FileRead string
  | FileWrite string file_content
  | IndexPublish string metadata

text \<open>
  The fields of a \<open>Collection\<close> (\<open>_name\<close>, \<open>_driveFileId\<close>, \<open>_loaded\<close>, \<open>_dirty\<close>,
  \<open>_documents\<close>, \<open>_collectionMetadata\<close>) and the state of its collaborators: the blobs
  behind \<open>_fileService\<close>, whether its \<open>writeFile\<close> throws, the entries of
  \<open>_database._masterIndex\<close> (\<open>None\<close> when the database has none), and the calls made so
  far.
\<close>

record collection =
  name :: string
  driveFileId :: string
  loaded :: bool
  dirty :: bool
  documents :: docs
  collectionMetadata :: "metadata option"
  fileStore :: "(string \<times> file_content) list"
  writeFails :: bool
  masterIndex :: "(string \<times> metadata) list option"
  trace :: "event list"

text \<open>
  A method returns its result or throws, and leaves the state it has reached either way.
\<close>

type_synonym 'a outcome = "(error + 'a) \<times> collection"

definition andThen :: "'a outcome \<Rightarrow> ('a \<Rightarrow> collection \<Rightarrow> 'b outcome) \<Rightarrow> 'b outcome" where
  "andThen r f = (case r of (Inl e, s) \<Rightarrow> (Inl e, s) | (Inr x, s) \<Rightarrow> f x s)"

datatype insert_result = InsertResult (insertedId: string) (insert_acknowledged: bool)

datatype update_result =
  UpdateResult (matchedCount: nat) (modifiedCount: nat) (update_acknowledged: bool)

datatype delete_result = DeleteResult (deletedCount: nat) (delete_acknowledged: bool)

subsection \<open>Private methods\<close>

text \<open>The constructor, for arguments that pass its checks.\<close>

definition Collection_new ::
  "string \<Rightarrow> string \<Rightarrow> (string \<times> file_content) list \<Rightarrow> bool \<Rightarrow>
   (string \<times> metadata) list option \<Rightarrow> collection" where
  "Collection_new nm fileId files fails idx =
     \<lparr>name = nm, driveFileId = fileId, loaded = False, dirty = False, documents = [],
      collectionMetadata = None, fileStore = files, writeFails = fails, masterIndex = idx,
      trace = []\<rparr>"

definition loadData :: "deps \<Rightarrow> collection \<Rightarrow> unit outcome" where
  "loadData D s =
     (let s1 = s\<lparr>trace := trace s @ [FileRead (driveFileId s)]\<rparr>
      in case map_of (fileStore s) (driveFileId s) of
           None \<Rightarrow> (Inl OperationError, s1)
         | Some NonObject \<Rightarrow> (Inl OperationError, s1)
         | Some (Blob ds m) \<Rightarrow>
             (Inr (),
              s1\<lparr>documents := (case ds of None \<Rightarrow> [] | Some d \<Rightarrow> d),
                 collectionMetadata :=
                   Some (CollectionMetadata_new (now D) (name s) (driveFileId s) m)\<rparr>))"

definition ensureLoaded :: "deps \<Rightarrow> collection \<Rightarrow> unit outcome" where
  "ensureLoaded D s =
     (if \<not> loaded s
      then andThen (loadData D s) (\<lambda>_ s1. (Inr (), s1\<lparr>loaded := True\<rparr>))
      else (Inr (), s))"

text \<open>
  \<open>_saveData\<close>: everything is inside the \<open>try\<close>, so a missing metadata object and a failing
  \<open>writeFile\<close> both end in \<open>OperationError\<close>.
\<close>

definition saveData :: "collection \<Rightarrow> unit outcome" where
  "saveData s =
     (case collectionMetadata s of
        None \<Rightarrow> (Inl OperationError, s)
      | Some m \<Rightarrow>
          (let data = Blob (Some (documents s)) (Some m);
               s1 = s\<lparr>trace := trace s @ [FileWrite (driveFileId s) data]\<rparr>
           in if writeFails s then (Inl OperationError, s1)
              else (Inr (),
                    s1\<lparr>fileStore := AList.update (driveFileId s) data (fileStore s),
                       dirty := False\<rparr>)))"

definition markDirty :: "collection \<Rightarrow> collection" where
  "markDirty s = s\<lparr>dirty := True\<rparr>"

text \<open>
  \<open>_updateMetadata(changes)\<close>; \<open>changes\<close> is \<open>Some n\<close> for \<open>{documentCount: n}\<close> and \<open>None\<close>
  for \<open>{}\<close>. \<open>MasterIndex\<close> is not among the source files; modelled from the spec, its
  \<open>updateCollectionMetadata\<close> replaces the entry of the collection ("the master index
  entry for a collection, once loaded, is replaced atomically under the process-wide
  lock", the spec, 3). That lock is taken and released inside \<open>MasterIndex\<close>: the trace
  records the call that Collection.js makes, as \<open>IndexPublish\<close>, and not what the master
  index does to serve it.
\<close>

definition updateMetadata :: "deps \<Rightarrow> nat option \<Rightarrow> collection \<Rightarrow> unit outcome" where
  "updateMetadata D changes s =
     andThen (ensureLoaded D s) (\<lambda>_ s1.
       case collectionMetadata s1 of
         None \<Rightarrow> (Inl TypeError, s1)
       | Some m \<Rightarrow>
           (let m1 = (case changes of None \<Rightarrow> m | Some n \<Rightarrow> setDocumentCount n m);
                m2 = updateLastModified (now D) m1;
                s2 = s1\<lparr>collectionMetadata := Some m2\<rparr>
            in case masterIndex s2 of
                 None \<Rightarrow> (Inr (), s2)
               | Some idx \<Rightarrow>
                   (Inr (),
                    s2\<lparr>masterIndex := Some (AList.update (name s2) m2 idx),
                       trace := trace s2 @ [IndexPublish (name s2) m2]\<rparr>)))"

text \<open>
  The block that follows each change in the source:
  \<open>if (count > 0) { this._updateMetadata(changes); this._markDirty(); }\<close>
\<close>

definition touchIf :: "deps \<Rightarrow> bool \<Rightarrow> nat option \<Rightarrow> collection \<Rightarrow> unit outcome" where
  "touchIf D changed changes s =
     (if changed
      then andThen (updateMetadata D changes s) (\<lambda>_ s1. (Inr (), markDirty s1))
      else (Inr (), s))"

definition validateFilter :: "json \<Rightarrow> error + unit" where
  "validateFilter flt =
     (case Validate_object flt True of
        Inl e \<Rightarrow> Inl e
      | Inr _ \<Rightarrow>
          if ''_id'' \<in> set (object_keys flt)
          then Validate_nonEmptyString (get_prop flt ''_id'')
          else Inr ())"


subsection \<open>Public methods\<close>

definition insertOne :: "deps \<Rightarrow> json \<Rightarrow> collection \<Rightarrow> insert_result outcome" where
  "insertOne D doc s =
     andThen (ensureLoaded D s) (\<lambda>_ s1.
       case insertDocument D (documents s1) doc of
         Inl e \<Rightarrow> (Inl e, s1)
       | Inr (i, insertedDoc, ds) \<Rightarrow>
           (let s2 = s1\<lparr>documents := ds\<rparr>
            in andThen (updateMetadata D (Some (length (documents s2))) s2) (\<lambda>_ s3.
                 (Inr (InsertResult i True), markDirty s3))))"

definition findOne :: "deps \<Rightarrow> json \<Rightarrow> collection \<Rightarrow> json option outcome" where
  "findOne D flt s =
     andThen (ensureLoaded D s) (\<lambda>_ s1.
       case validateFilter flt of
         Inl e \<Rightarrow> (Inl e, s1)
       | Inr _ \<Rightarrow>
           (let filterKeys = object_keys flt
            in if length filterKeys = 0 then
                 (case findAllDocuments (documents s1) of
                    [] \<Rightarrow> (Inr None, s1)
                  | d # _ \<Rightarrow> (Inr (Some d), s1))
               else if length filterKeys = 1 \<and> hd filterKeys = ''_id'' then
                 (findDocumentById (documents s1) (get_prop flt ''_id''), s1)
               else (findByQuery D (documents s1) flt, s1)))"

definition find :: "deps \<Rightarrow> json \<Rightarrow> collection \<Rightarrow> json list outcome" where
  "find D flt s =
     andThen (ensureLoaded D s) (\<lambda>_ s1.
       case validateFilter flt of
         Inl e \<Rightarrow> (Inl e, s1)
       | Inr _ \<Rightarrow>
           (if length (object_keys flt) = 0
            then (Inr (findAllDocuments (documents s1)), s1)
            else (findMultipleByQuery D (documents s1) flt, s1)))"

definition updateOneWithOperators ::
  "deps \<Rightarrow> json \<Rightarrow> json \<Rightarrow> collection \<Rightarrow> update_result outcome" where
  "updateOneWithOperators D flt update s =
     (let filterKeys = object_keys flt
      in if length filterKeys = 1 \<and> hd filterKeys = ''_id'' then
           (case updateDocumentWithOperators D (documents s) (get_prop flt ''_id'') update of
              Inl e \<Rightarrow> (Inl e, s)
            | Inr (modified, ds) \<Rightarrow>
                andThen (touchIf D (0 < modified) None (s\<lparr>documents := ds\<rparr>)) (\<lambda>_ s1.
                  (Inr (UpdateResult (if 0 < modified then 1 else 0) modified True), s1)))
         else
           (case findByQuery D (documents s) flt of
              Inl e \<Rightarrow> (Inl e, s)
            | Inr None \<Rightarrow> (Inr (UpdateResult 0 0 True), s)
            | Inr (Some matchingDoc) \<Rightarrow>
                if falsy matchingDoc then (Inr (UpdateResult 0 0 True), s)
                else
                  (case updateDocumentWithOperators D (documents s)
                          (get_prop matchingDoc ''_id'') update of
                     Inl e \<Rightarrow> (Inl e, s)
                   | Inr (modified, ds) \<Rightarrow>
                       andThen (touchIf D (0 < modified) None (s\<lparr>documents := ds\<rparr>)) (\<lambda>_ s1.
                         (Inr (UpdateResult 1 modified True), s1)))))"

definition updateOneWithReplacement ::
  "deps \<Rightarrow> json \<Rightarrow> json \<Rightarrow> collection \<Rightarrow> update_result outcome" where
  "updateOneWithReplacement D flt update s =
     (let filterKeys = object_keys flt
      in if length filterKeys = 1 \<and> hd filterKeys = ''_id'' then
           (case updateDocument D (documents s) (get_prop flt ''_id'') update of
              Inl e \<Rightarrow> (Inl e, s)
            | Inr (modified, ds) \<Rightarrow>
                andThen (touchIf D (0 < modified) None (s\<lparr>documents := ds\<rparr>)) (\<lambda>_ s1.
                  (Inr (UpdateResult (if 0 < modified then 1 else 0) modified True), s1)))
         else
           (case findByQuery D (documents s) flt of
              Inl e \<Rightarrow> (Inl e, s)
            | Inr None \<Rightarrow> (Inr (UpdateResult 0 0 True), s)
            | Inr (Some matchingDoc) \<Rightarrow>
                if falsy matchingDoc then (Inr (UpdateResult 0 0 True), s)
                else
                  (case updateDocument D (documents s) (get_prop matchingDoc ''_id'') update of
                     Inl e \<Rightarrow> (Inl e, s)
                   | Inr (modified, ds) \<Rightarrow>
                       andThen (touchIf D (0 < modified) None (s\<lparr>documents := ds\<rparr>)) (\<lambda>_ s1.
                         (Inr (UpdateResult 1 modified True), s1)))))"

text \<open>\<open>typeof filterOrId === "string"\<close>\<close>

fun is_string :: "json \<Rightarrow> bool" where
  "is_string (JStr _) = True"
| "is_string _ = False"

definition updateOne :: "deps \<Rightarrow> json \<Rightarrow> json \<Rightarrow> collection \<Rightarrow> update_result outcome" where
  "updateOne D filterOrId update s =
     andThen (ensureLoaded D s) (\<lambda>_ s1.
       case Validate_object update False of
         Inl e \<Rightarrow> (Inl e, s1)
       | Inr _ \<Rightarrow>
           (let isIdFilter = is_string filterOrId;
                flt = (if isIdFilter then JObj [(''_id'', filterOrId)] else filterOrId)
            in case (if \<not> isIdFilter then validateFilter flt else Inr ()) of
                 Inl e \<Rightarrow> (Inl e, s1)
               | Inr _ \<Rightarrow>
                   (case Validate_validateUpdateObject update NoOptions of
                      Inl e \<Rightarrow> (Inl e, s1)
                    | Inr _ \<Rightarrow>
                        (let hasOperators = list_ex is_operator_key (object_keys update)
                         in if hasOperators
                            then updateOneWithOperators D flt update s1
                            else updateOneWithReplacement D flt update s1))))"

text \<open>
  The loop of \<open>updateMany\<close> over the matching documents: an update that throws ends it and
  leaves the documents updated before it in place. Reading \<open>doc._id\<close> of a \<open>null\<close> throws.
\<close>

fun updateEach :: "deps \<Rightarrow> json \<Rightarrow> json list \<Rightarrow> nat \<Rightarrow> collection \<Rightarrow> nat outcome" where
  "updateEach D update [] acc s = (Inr acc, s)"
| "updateEach D update (doc # rest) acc s =
     (if doc = JNull then (Inl TypeError, s)
      else
        (case updateDocumentWithOperators D (documents s) (get_prop doc ''_id'') update of
           Inl e \<Rightarrow> (Inl e, s)
         | Inr (modified, ds) \<Rightarrow>
             updateEach D update rest (acc + modified) (s\<lparr>documents := ds\<rparr>)))"

definition updateMany :: "deps \<Rightarrow> json \<Rightarrow> json \<Rightarrow> collection \<Rightarrow> update_result outcome" where
  "updateMany D flt update s =
     andThen (ensureLoaded D s) (\<lambda>_ s1.
       case validateFilter flt of
         Inl e \<Rightarrow> (Inl e, s1)
       | Inr _ \<Rightarrow>
           (case Validate_object update False of
              Inl e \<Rightarrow> (Inl e, s1)
            | Inr _ \<Rightarrow>
                (case Validate_validateUpdateObject update RequireOperators of
                   Inl e \<Rightarrow> (Inl e, s1)
                 | Inr _ \<Rightarrow>
                     (case findMultipleByQuery D (documents s1) flt of
                        Inl e \<Rightarrow> (Inl e, s1)
                      | Inr matchingDocs \<Rightarrow>
                          (let matched = length matchingDocs
                           in if matched = 0 then (Inr (UpdateResult 0 0 True), s1)
                              else
                                andThen (updateEach D update matchingDocs 0 s1)
                                  (\<lambda>modified s2.
                                    andThen (touchIf D (0 < modified) None s2) (\<lambda>_ s3.
                                      (Inr (UpdateResult matched modified True), s3))))))))"

definition replaceOne :: "deps \<Rightarrow> json \<Rightarrow> json \<Rightarrow> collection \<Rightarrow> update_result outcome" where
  "replaceOne D filterOrId doc s =
     andThen (ensureLoaded D s) (\<lambda>_ s1.
       case Validate_object doc False of
         Inl e \<Rightarrow> (Inl e, s1)
       | Inr _ \<Rightarrow>
           (case Validate_validateUpdateObject doc ForbidOperators of
              Inl e \<Rightarrow> (Inl e, s1)
            | Inr _ \<Rightarrow>
                (let isIdFilter = is_string filterOrId;
                     flt = (if isIdFilter then JObj [(''_id'', filterOrId)] else filterOrId)
                 in case (if \<not> isIdFilter then validateFilter flt else Inr ()) of
                      Inl e \<Rightarrow> (Inl e, s1)
                    | Inr _ \<Rightarrow>
                        (let filterKeys = object_keys flt
                         in if length filterKeys = 1 \<and> hd filterKeys = ''_id'' then
                              (case replaceDocument (documents s1) (get_prop flt ''_id'') doc of
                                 Inl e \<Rightarrow> (Inl e, s1)
                               | Inr (modified, ds) \<Rightarrow>
                                   andThen (touchIf D (0 < modified) None (s1\<lparr>documents := ds\<rparr>))
                                     (\<lambda>_ s2.
                                       (Inr (UpdateResult (if 0 < modified then 1 else 0)
                                               modified True), s2)))
                            else
                              (case findByQuery D (documents s1) flt of
                                 Inl e \<Rightarrow> (Inl e, s1)
                               | Inr None \<Rightarrow> (Inr (UpdateResult 0 0 True), s1)
                               | Inr (Some matchingDoc) \<Rightarrow>
                                   if falsy matchingDoc
                                   then (Inr (UpdateResult 0 0 True), s1)
                                   else
                                     (case replaceDocument (documents s1)
                                             (get_prop matchingDoc ''_id'') doc of
                                        Inl e \<Rightarrow> (Inl e, s1)
                                      | Inr (modified, ds) \<Rightarrow>
                                          andThen
                                            (touchIf D (0 < modified) None
                                               (s1\<lparr>documents := ds\<rparr>))
                                            (\<lambda>_ s2.
                                              (Inr (UpdateResult 1 modified True), s2))))))))"

text \<open>
  The block that ends each of the three branches of \<open>deleteOne\<close>: delete by id, record the
  new document count if a document went, and report the count.
\<close>

definition deleteById :: "deps \<Rightarrow> json option \<Rightarrow> collection \<Rightarrow> delete_result outcome" where
  "deleteById D idv s =
     (case deleteDocument (documents s) idv of
        Inl e \<Rightarrow> (Inl e, s)
      | Inr (deleted, ds) \<Rightarrow>
          (let s1 = s\<lparr>documents := ds\<rparr>
           in andThen (touchIf D (0 < deleted) (Some (length (documents s1))) s1) (\<lambda>_ s2.
                (Inr (DeleteResult deleted True), s2))))"

text \<open>The last branch of \<open>deleteOne\<close>: "Field-based or complex queries - use QueryEngine".\<close>

definition deleteByQuery :: "deps \<Rightarrow> json \<Rightarrow> collection \<Rightarrow> delete_result outcome" where
  "deleteByQuery D flt s =
     (case findByQuery D (documents s) flt of
        Inl e \<Rightarrow> (Inl e, s)
      | Inr None \<Rightarrow> (Inr (DeleteResult 0 True), s)
      | Inr (Some matchingDoc) \<Rightarrow>
          if falsy matchingDoc then (Inr (DeleteResult 0 True), s)
          else deleteById D (get_prop matchingDoc ''_id'') s)"

definition deleteOne :: "deps \<Rightarrow> json \<Rightarrow> collection \<Rightarrow> delete_result outcome" where
  "deleteOne D flt s =
     andThen (ensureLoaded D s) (\<lambda>_ s1.
       case validateFilter flt of
         Inl e \<Rightarrow> (Inl e, s1)
       | Inr _ \<Rightarrow>
           (let filterKeys = object_keys flt
            in if length filterKeys = 0 then
                 (case findAllDocuments (documents s1) of
                    [] \<Rightarrow> (Inr (DeleteResult 0 True), s1)
                  | d # _ \<Rightarrow>
                      if d = JNull then (Inl TypeError, s1)
                      else deleteById D (get_prop d ''_id'') s1)
               else if length filterKeys = 1 \<and> hd filterKeys = ''_id'' then
                 deleteById D (get_prop flt ''_id'') s1
               else deleteByQuery D flt s1))"

definition countDocuments :: "deps \<Rightarrow> json \<Rightarrow> collection \<Rightarrow> nat outcome" where
  "countDocuments D flt s =
     andThen (ensureLoaded D s) (\<lambda>_ s1.
       case validateFilter flt of
         Inl e \<Rightarrow> (Inl e, s1)
       | Inr _ \<Rightarrow>
           (if length (object_keys flt) = 0
            then (Inr (DocumentOperations_countDocuments (documents s1)), s1)
            else (countByQuery D (documents s1) flt, s1)))"

definition getName :: "collection \<Rightarrow> string" where
  "getName s = name s"

definition getMetadata :: "deps \<Rightarrow> collection \<Rightarrow> metadata option outcome" where
  "getMetadata D s = andThen (ensureLoaded D s) (\<lambda>_ s1. (Inr (collectionMetadata s1), s1))"

definition isDirty :: "collection \<Rightarrow> bool" where
  "isDirty s = dirty s"

definition save :: "collection \<Rightarrow> unit outcome" where
  "save s = (if loaded s \<and> dirty s then saveData s else (Inr (), s))"


section \<open>Properties of states and the inputs of the examples\<close>

text \<open>
  The invariant of the data model (the spec, 3 and 8): "for every document \<open>d\<close> stored in
  any collection, \<open>d._id\<close> is a non-empty string equal to its map key". A JavaScript object
  holds each key once.
\<close>

definition wf_documents :: "docs \<Rightarrow> bool" where
  "wf_documents ds =
     (distinct (map fst ds) \<and>
      list_all (\<lambda>p. fst p \<noteq> [] \<and> get_prop (snd p) ''_id'' = Some (JStr (fst p))) ds)"

text \<open>
  What the methods keep true of the fields: a loaded collection has its metadata object,
  and only a loaded collection is dirty.
\<close>

definition coll_inv :: "collection \<Rightarrow> bool" where
  "coll_inv s =
     ((\<not> loaded s \<or> collectionMetadata s \<noteq> None) \<and> (\<not> dirty s \<or> loaded s))"

text \<open>
  "\<open>CollectionMetadata.documentCount\<close> equals the size of the documents map", for a loaded
  collection.
\<close>

definition count_consistent :: "collection \<Rightarrow> bool" where
  "count_consistent s =
     (\<not> loaded s \<or>
      (case collectionMetadata s of
         None \<Rightarrow> False
       | Some m \<Rightarrow> md_documentCount m = length (documents s)))"

text \<open>
  The blob of the collection, when the file service holds one, records as \<open>documentCount\<close>
  the number of its documents: what a load makes of it is consistent.
\<close>

definition stored_count_consistent :: "collection \<Rightarrow> bool" where
  "stored_count_consistent s =
     (case map_of (fileStore s) (driveFileId s) of
        Some (Blob ds m) \<Rightarrow>
          (case m of None \<Rightarrow> 0 | Some md \<Rightarrow> md_documentCount md) =
            length (case ds of None \<Rightarrow> [] | Some d \<Rightarrow> d)
      | _ \<Rightarrow> True)"

text \<open>The invariant of the document count: in memory once loaded, and in the blob.\<close>

definition count_invariant :: "collection \<Rightarrow> bool" where
  "count_invariant s = (count_consistent s \<and> stored_count_consistent s)"

text \<open>The filter a call works with: \<open>isIdFilter ? { _id: filterOrId } : filterOrId\<close>.\<close>

definition as_filter :: "json \<Rightarrow> json" where
  "as_filter filterOrId =
     (if is_string filterOrId then JObj [(''_id'', filterOrId)] else filterOrId)"

text \<open>\<open>filterKeys.length === 1 && filterKeys[0] === "_id"\<close>\<close>

definition is_id_filter :: "json \<Rightarrow> bool" where
  "is_id_filter flt = (length (object_keys flt) = 1 \<and> hd (object_keys flt) = ''_id'')"

text \<open>
  A replacement that \<open>replaceById\<close> accepts for the id an ID filter names: it has no
  operator-shaped key at any depth and no \<open>_id\<close> but that one. With any other filter the
  replacement is looked at only once a document has matched.
\<close>

definition replacement_ok :: "json \<Rightarrow> json \<Rightarrow> bool" where
  "replacement_ok flt doc =
     (\<not> is_id_filter flt \<or>
      (\<not> has_operator_keys doc \<and>
       (get_prop doc ''_id'' = None \<or> get_prop doc ''_id'' = get_prop flt ''_id'')))"

text \<open>A filter the query engine accepts and that no stored document satisfies.\<close>

definition matches_none :: "deps \<Rightarrow> json \<Rightarrow> docs \<Rightarrow> bool" where
  "matches_none D flt ds =
     (filter_ok (limits D) flt \<and> list_all (\<lambda>d. \<not> eval_filter d flt) (findAllDocuments ds))"

text \<open>
  From \<open>s\<close> to \<open>s'\<close> the only calls that Collection.js makes to its collaborators are
  reads of the blob and publications to the master index: it makes no call to the lock
  service and writes nothing, so the blobs of the file service are as they were, and the
  collection has the file it had.
\<close>

definition reads_and_publishes_only :: "collection \<Rightarrow> collection \<Rightarrow> bool" where
  "reads_and_publishes_only s s' =
     (take (length (trace s)) (trace s') = trace s \<and>
      list_all (\<lambda>ev. case ev of FileRead h \<Rightarrow> True | IndexPublish n m \<Rightarrow> True | _ \<Rightarrow> False)
        (drop (length (trace s)) (trace s')) \<and>
      fileStore s' = fileStore s \<and> driveFileId s' = driveFileId s)"

text \<open>
  What a call that started in \<open>s\<close> has done when it returns in \<open>s'\<close>: the collection is
  dirty; its metadata carries the time of the call as \<open>lastUpdated\<close> and, when \<open>counted\<close>,
  the number of the documents as \<open>documentCount\<close>; the master index, when the database has
  one, holds that metadata under the name of the collection; and the calls made to the
  collaborators are the read of the blob, when the collection was not loaded, and then the
  one publication of that metadata, when the database has a master index.
\<close>

definition published :: "deps \<Rightarrow> bool \<Rightarrow> collection \<Rightarrow> collection \<Rightarrow> bool" where
  "published D counted s s' =
     (dirty s' \<and>
      (case collectionMetadata s' of
         None \<Rightarrow> False
       | Some m \<Rightarrow>
           md_lastUpdated m = now D \<and>
           (counted \<longrightarrow> md_documentCount m = length (documents s')) \<and>
           (case masterIndex s' of
              None \<Rightarrow> True
            | Some idx \<Rightarrow> map_of idx (name s') = Some m) \<and>
           trace s' =
             trace s @ (if loaded s then [] else [FileRead (driveFileId s)]) @
               (case masterIndex s' of
                  None \<Rightarrow> []
                | Some idx \<Rightarrow> [IndexPublish (name s') m])))"

text \<open>
  The checks on the arguments of \<open>updateOne\<close>, \<open>updateMany\<close> and \<open>replaceOne\<close>, in the
  order in which each method makes them.
\<close>

definition updateOne_checks :: "json \<Rightarrow> json \<Rightarrow> error + unit" where
  "updateOne_checks filterOrId update =
     (case Validate_object update False of
        Inl e \<Rightarrow> Inl e
      | Inr _ \<Rightarrow>
          (case (if \<not> is_string filterOrId then validateFilter filterOrId else Inr ()) of
             Inl e \<Rightarrow> Inl e
           | Inr _ \<Rightarrow> Validate_validateUpdateObject update NoOptions))"

definition updateMany_checks :: "json \<Rightarrow> json \<Rightarrow> error + unit" where
  "updateMany_checks flt update =
     (case validateFilter flt of
        Inl e \<Rightarrow> Inl e
      | Inr _ \<Rightarrow>
          (case Validate_object update False of
             Inl e \<Rightarrow> Inl e
           | Inr _ \<Rightarrow> Validate_validateUpdateObject update RequireOperators))"

definition replaceOne_checks :: "json \<Rightarrow> json \<Rightarrow> error + unit" where
  "replaceOne_checks filterOrId doc =
     (case Validate_object doc False of
        Inl e \<Rightarrow> Inl e
      | Inr _ \<Rightarrow>
          (case Validate_validateUpdateObject doc ForbidOperators of
             Inl e \<Rightarrow> Inl e
           | Inr _ \<Rightarrow> (if \<not> is_string filterOrId then validateFilter filterOrId else Inr ())))"

text \<open>
  \<open>findOne\<close> and \<open>deleteOne\<close> as they would be without the branch for \<open>{_id: "id"}\<close>: such a
  filter goes to the query engine like any other.
\<close>

definition findOne_viaQueryEngine :: "deps \<Rightarrow> json \<Rightarrow> collection \<Rightarrow> json option outcome" where
  "findOne_viaQueryEngine D flt s =
     andThen (ensureLoaded D s) (\<lambda>_ s1.
       case validateFilter flt of
         Inl e \<Rightarrow> (Inl e, s1)
       | Inr _ \<Rightarrow>
           (if length (object_keys flt) = 0 then
              (case findAllDocuments (documents s1) of
                 [] \<Rightarrow> (Inr None, s1)
               | d # _ \<Rightarrow> (Inr (Some d), s1))
            else (findByQuery D (documents s1) flt, s1)))"

definition deleteOne_viaQueryEngine :: "deps \<Rightarrow> json \<Rightarrow> collection \<Rightarrow> delete_result outcome" where
  "deleteOne_viaQueryEngine D flt s =
     andThen (ensureLoaded D s) (\<lambda>_ s1.
       case validateFilter flt of
         Inl e \<Rightarrow> (Inl e, s1)
       | Inr _ \<Rightarrow>
           (if length (object_keys flt) = 0 then
              (case findAllDocuments (documents s1) of
                 [] \<Rightarrow> (Inr (DeleteResult 0 True), s1)
               | d # _ \<Rightarrow>
                   if d = JNull then (Inl TypeError, s1)
                   else deleteById D (get_prop d ''_id'') s1)
            else deleteByQuery D flt s1))"

text \<open>
  The state that \<open>_updateMetadata(changes)\<close> and \<open>_markDirty()\<close> leave behind them in a
  loaded collection.
\<close>

definition touched :: "deps \<Rightarrow> nat option \<Rightarrow> collection \<Rightarrow> collection" where
  "touched D changes s =
     (let m = the (collectionMetadata s);
          m' = updateLastModified (now D)
                 (case changes of None \<Rightarrow> m | Some n \<Rightarrow> setDocumentCount n m)
      in s\<lparr>collectionMetadata := Some m',
           masterIndex := map_option (AList.update (name s) m') (masterIndex s),
           trace := trace s @
             (case masterIndex s of None \<Rightarrow> [] | Some _ \<Rightarrow> [IndexPublish (name s) m']),
           dirty := True\<rparr>)"

text \<open>
  The inputs of the examples: an update engine that knows \<open>$set\<close> on top-level fields, a
  collection of two documents on the file \<open>f\<close>, not yet loaded, the same collection once
  loaded, and a loaded collection without documents.
\<close>

definition example_apply :: "json \<Rightarrow> json \<Rightarrow> error + json" where
  "example_apply d u =
     (case (d, get_prop u ''$set'') of
        (JObj old, Some (JObj kvs)) \<Rightarrow>
          Inr (JObj (foldl (\<lambda>acc p. AList.update (fst p) (snd p) acc) old kvs))
      | _ \<Rightarrow> Inl InvalidUpdate)"

definition example_deps :: deps where
  "example_deps =
     \<lparr>limits = \<lparr>maxSubfilters = 8, maxDepth = 4\<rparr>,
      UpdateEngine_apply = example_apply,
      generateId = ''g1'',
      now = 7\<rparr>"

definition example_metadata :: metadata where
  "example_metadata =
     \<lparr>md_name = ''c'', md_fileHandle = ''f'', md_created = 1, md_lastUpdated = 2,
      md_documentCount = 2, md_modificationToken = ''t0''\<rparr>"

definition example_documents :: docs where
  "example_documents =
     [(''a'', JObj [(''_id'', JStr ''a''), (''n'', JNum 1)]),
      (''b'', JObj [(''_id'', JStr ''b''), (''n'', JNum 2)])]"

definition example_unloaded :: collection where
  "example_unloaded =
     Collection_new ''c'' ''f'' [(''f'', Blob (Some example_documents) (Some example_metadata))]
       False (Some [])"

definition example_loaded :: collection where
  "example_loaded =
     \<lparr>name = ''c'', driveFileId = ''f'', loaded = True, dirty = False,
      documents = example_documents, collectionMetadata = Some example_metadata,
      fileStore = [(''f'', Blob (Some example_documents) (Some example_metadata))],
      writeFails = False, masterIndex = Some [], trace = [FileRead ''f'']\<rparr>"

definition example_empty :: collection where
  "example_empty =
     \<lparr>name = ''c'', driveFileId = ''f'', loaded = True, dirty = False,
      documents = [], collectionMetadata = Some (example_metadata\<lparr>md_documentCount := 0\<rparr>),
      fileStore = [(''f'', Blob None (Some (example_metadata\<lparr>md_documentCount := 0\<rparr>)))],
      writeFails = False, masterIndex = Some [], trace = [FileRead ''f'']\<rparr>"

section \<open>Basic facts\<close>

lemma andThen_Inr [simp]: "andThen (Inr x, s) f = f x s"
  by (simp add: andThen_def)

lemma andThen_Inl [simp]: "andThen (Inl e, s) f = (Inl e, s)"
  by (simp add: andThen_def)

lemma get_prop_object: "get_prop d k = Some v \<Longrightarrow> \<not> falsy d \<and> d \<noteq> JNull"
  by (cases d) auto

lemmas example_defs =
  example_deps_def example_metadata_def example_documents_def example_unloaded_def
  example_loaded_def Collection_new_def

lemma example_load: "ensureLoaded example_deps example_unloaded = (Inr (), example_loaded)"
  by (simp add: example_defs ensureLoaded_def loadData_def CollectionMetadata_new_def)

lemma example_wf: "wf_documents example_documents"
  by (simp add: wf_documents_def example_documents_def)

section \<open>Saving\<close>

text \<open>
  Claim C10. \<open>save()\<close> writes the collection blob through FileService if and only if the
  collection is both loaded and dirty: then the call made is one \<open>writeFile\<close> of the
  documents and the metadata; otherwise nothing is called and the state is as it was. After
  a save that succeeds the dirty flag is false, so a second \<open>save()\<close> right after it
  writes nothing and changes nothing, and so does any \<open>save()\<close> on a collection that was
  never loaded or is clean.
\<close>

theorem save_idempotent:
  assumes "coll_inv s"
  shows "(loaded s \<and> dirty s \<longrightarrow>
            trace (snd (save s)) =
              trace s @ [FileWrite (driveFileId s)
                           (Blob (Some (documents s)) (collectionMetadata s))]) \<and>
         (\<not> (loaded s \<and> dirty s) \<longrightarrow> save s = (Inr (), s)) \<and>
         (fst (save s) = Inr () \<longrightarrow>
            \<not> dirty (snd (save s)) \<and> save (snd (save s)) = (Inr (), snd (save s)))"
  using assms
  by (auto simp: save_def saveData_def coll_inv_def Let_def split: option.splits)

text \<open>
  Claim C10 on the example collection made dirty, and on the collection that was never
  loaded.
\<close>

theorem save_idempotent_witness:
  "coll_inv (example_loaded\<lparr>dirty := True\<rparr>) \<and>
   loaded (example_loaded\<lparr>dirty := True\<rparr>) \<and> dirty (example_loaded\<lparr>dirty := True\<rparr>) \<and>
   trace (snd (save (example_loaded\<lparr>dirty := True\<rparr>))) =
     [FileRead ''f'', FileWrite ''f'' (Blob (Some example_documents) (Some example_metadata))] \<and>
   fst (save (example_loaded\<lparr>dirty := True\<rparr>)) = Inr () \<and>
   \<not> dirty (snd (save (example_loaded\<lparr>dirty := True\<rparr>))) \<and>
   save (snd (save (example_loaded\<lparr>dirty := True\<rparr>))) =
     (Inr (), snd (save (example_loaded\<lparr>dirty := True\<rparr>))) \<and>
   coll_inv example_unloaded \<and> \<not> loaded example_unloaded \<and>
   save example_unloaded = (Inr (), example_unloaded)"
proof -
  have h1: "coll_inv (example_loaded\<lparr>dirty := True\<rparr>)"
    by (simp add: coll_inv_def example_loaded_def)
  have h2: "coll_inv example_unloaded"
    by (simp add: coll_inv_def example_unloaded_def Collection_new_def)
  have e: "fst (save (example_loaded\<lparr>dirty := True\<rparr>)) = Inr ()"
    by (simp add: save_def saveData_def example_loaded_def Let_def)
  show ?thesis
    using save_idempotent [OF h1] save_idempotent [OF h2] h1 h2 e
    by (simp add: example_loaded_def example_unloaded_def Collection_new_def)
qed

section \<open>The empty filter\<close>

text \<open>
  Claim C6. For every collection state (\<open>s1\<close> is the state once loaded), \<open>find({})\<close>
  returns all stored documents, \<open>countDocuments({})\<close> returns their number, and for every
  document \<open>d\<close> the empty filter matches \<open>d\<close>; so the query engine's own \<open>findAll\<close> and
  \<open>count\<close> give the same answers for \<open>{}\<close>.
\<close>

theorem empty_filter_matches_every_document:
  assumes "ensureLoaded D s = (Inr (), s1)"
  shows "find D (JObj []) s = (Inr (map snd (documents s1)), s1) \<and>
         countDocuments D (JObj []) s = (Inr (length (documents s1)), s1) \<and>
         matches (limits D) d (JObj []) = Inr True \<and>
         findMultipleByQuery D (documents s1) (JObj []) = Inr (map snd (documents s1)) \<and>
         countByQuery D (documents s1) (JObj []) = Inr (length (documents s1))"
  using assms
  by (simp add: find_def countDocuments_def validateFilter_def Validate_object_def
      findAllDocuments_def DocumentOperations_countDocuments_def matches_def filter_ok_def
      findMultipleByQuery_def countByQuery_def findAll_def count_def)

text \<open>Claim C6 on the example collection.\<close>

theorem empty_filter_matches_every_document_witness:
  "ensureLoaded example_deps example_unloaded = (Inr (), example_loaded) \<and>
   find example_deps (JObj []) example_unloaded =
     (Inr [JObj [(''_id'', JStr ''a''), (''n'', JNum 1)],
           JObj [(''_id'', JStr ''b''), (''n'', JNum 2)]], example_loaded) \<and>
   countDocuments example_deps (JObj []) example_unloaded = (Inr 2, example_loaded) \<and>
   matches (limits example_deps) (JObj [(''_id'', JStr ''a''), (''n'', JNum 1)]) (JObj []) = Inr True"
  using empty_filter_matches_every_document [OF example_load, of "JObj [(''_id'', JStr ''a''), (''n'', JNum 1)]"] example_load
  by (simp add: example_loaded_def example_documents_def)


section \<open>Loading, and deleting with the empty filter\<close>

lemma ensureLoaded_loaded: "loaded s \<Longrightarrow> ensureLoaded D s = (Inr (), s)"
  by (simp add: ensureLoaded_def)

lemma ensureLoaded_Inr:
  assumes "ensureLoaded D s = (Inr (), s1)"
  shows "loaded s1" and "dirty s1 = dirty s" and "fileStore s1 = fileStore s"
    and "masterIndex s1 = masterIndex s" and "name s1 = name s"
    and "driveFileId s1 = driveFileId s" and "writeFails s1 = writeFails s"
    and "loaded s \<Longrightarrow> s1 = s"
    and "\<not> loaded s \<Longrightarrow> trace s1 = trace s @ [FileRead (driveFileId s)]"
    and "\<not> loaded s \<Longrightarrow> collectionMetadata s1 \<noteq> None"
  using assms
  by (auto simp: ensureLoaded_def loadData_def Let_def
      split: if_splits option.splits file_content.splits)

lemma ensureLoaded_metadata:
  "coll_inv s \<Longrightarrow> ensureLoaded D s = (Inr (), s1) \<Longrightarrow> collectionMetadata s1 \<noteq> None"
  by (cases "loaded s") (auto simp: coll_inv_def dest: ensureLoaded_Inr)

text \<open>The state that \<open>_updateMetadata(changes)\<close> and \<open>_markDirty()\<close> leave.\<close>

lemma touchIf_False [simp]: "touchIf D False ch s = (Inr (), s)"
  by (simp add: touchIf_def)

lemma touchIf_True:
  assumes "loaded s" and "collectionMetadata s = Some m"
  shows "\<exists>s'. touchIf D True ch s = (Inr (), s') \<and> documents s' = documents s \<and>
           loaded s' \<and> dirty s' \<and> fileStore s' = fileStore s \<and>
           name s' = name s \<and> driveFileId s' = driveFileId s \<and>
           writeFails s' = writeFails s \<and>
           collectionMetadata s' =
             Some (updateLastModified (now D)
                     (case ch of None \<Rightarrow> m | Some n \<Rightarrow> setDocumentCount n m)) \<and>
           masterIndex s' =
             map_option (AList.update (name s) (the (collectionMetadata s'))) (masterIndex s) \<and>
           trace s' =
             trace s @ (case masterIndex s of
                          None \<Rightarrow> []
                        | Some _ \<Rightarrow> [IndexPublish (name s) (the (collectionMetadata s'))])"
  using assms
  by (auto simp: touchIf_def updateMetadata_def ensureLoaded_def markDirty_def Let_def
      split: option.splits)

lemma wf_documents_Cons:
  "wf_documents ((k, d) # rest) \<Longrightarrow>
     k \<noteq> [] \<and> get_prop d ''_id'' = Some (JStr k) \<and> k \<notin> fst ` set rest \<and> wf_documents rest"
  by (auto simp: wf_documents_def)

text \<open>
  Claim C9. \<open>deleteOne({})\<close> is accepted. On a collection without documents it returns
  \<open>{deletedCount: 0, acknowledged: true}\<close> and leaves the state as the load left it; on
  any other it returns \<open>{deletedCount: 1, acknowledged: true}\<close>, the documents that remain
  are the enumeration without its first entry, the collection is dirty and the document
  count is the new size. The documents satisfy the invariant of the data model.
\<close>

theorem deleteOne_empty_filter:
  assumes load: "ensureLoaded D s = (Inr (), s1)"
      and inv: "coll_inv s"
      and wf: "wf_documents (documents s1)"
  shows "(documents s1 = [] \<longrightarrow> deleteOne D (JObj []) s = (Inr (DeleteResult 0 True), s1)) \<and>
         (documents s1 \<noteq> [] \<longrightarrow>
            fst (deleteOne D (JObj []) s) = Inr (DeleteResult 1 True) \<and>
            documents (snd (deleteOne D (JObj []) s)) = tl (documents s1) \<and>
            dirty (snd (deleteOne D (JObj []) s)) \<and>
            map_option md_documentCount (collectionMetadata (snd (deleteOne D (JObj []) s))) =
              Some (length (tl (documents s1))))"
proof (intro conjI impI)
  assume "documents s1 = []"
  then show "deleteOne D (JObj []) s = (Inr (DeleteResult 0 True), s1)"
    using load
    by (simp add: deleteOne_def validateFilter_def Validate_object_def findAllDocuments_def)
next
  assume ne: "documents s1 \<noteq> []"
  then obtain k d rest where ds: "documents s1 = (k, d) # rest"
    by (cases "documents s1") auto
  from wf ds have k: "k \<noteq> []" "get_prop d ''_id'' = Some (JStr k)" "k \<notin> fst ` set rest"
    using wf_documents_Cons [of k d rest] by auto
  obtain m where m: "collectionMetadata s1 = Some m"
    using ensureLoaded_metadata [OF inv load] by auto
  have l1: "loaded (s1\<lparr>documents := rest\<rparr>)"
    using ensureLoaded_Inr(1) [OF load] by simp
  have m1: "collectionMetadata (s1\<lparr>documents := rest\<rparr>) = Some m"
    using m by simp
  obtain s' where s': "touchIf D True (Some (length rest)) (s1\<lparr>documents := rest\<rparr>) = (Inr (), s')"
    "documents s' = rest" "dirty s'"
    "collectionMetadata s' =
       Some (updateLastModified (now D) (setDocumentCount (length rest) m))"
    using touchIf_True [OF l1 m1, of D "Some (length rest)"] by auto
  have del: "deleteOne D (JObj []) s = (Inr (DeleteResult 1 True), s')"
    using load ds k s'(1) get_prop_object [OF k(2)]
    by (simp add: deleteOne_def validateFilter_def Validate_object_def findAllDocuments_def
        deleteById_def deleteDocument_def requireId_def)
  show "fst (deleteOne D (JObj []) s) = Inr (DeleteResult 1 True)"
    using del by simp
  show "documents (snd (deleteOne D (JObj []) s)) = tl (documents s1)"
    using del ds s'(2) by simp
  show "dirty (snd (deleteOne D (JObj []) s))"
    using del s'(3) by simp
  show "map_option md_documentCount (collectionMetadata (snd (deleteOne D (JObj []) s))) =
          Some (length (tl (documents s1)))"
    using del ds s'(4) by (simp add: updateLastModified_def setDocumentCount_def)
qed


text \<open>Claim C9 on the example collection and on the collection without documents.\<close>

theorem deleteOne_empty_filter_witness:
  "ensureLoaded example_deps example_unloaded = (Inr (), example_loaded) \<and>
   coll_inv example_unloaded \<and>
   wf_documents (documents example_loaded) \<and>
   documents example_loaded \<noteq> [] \<and>
   fst (deleteOne example_deps (JObj []) example_unloaded) = Inr (DeleteResult 1 True) \<and>
   documents (snd (deleteOne example_deps (JObj []) example_unloaded)) =
     [(''b'', JObj [(''_id'', JStr ''b''), (''n'', JNum 2)])] \<and>
   dirty (snd (deleteOne example_deps (JObj []) example_unloaded)) \<and>
   ensureLoaded example_deps example_empty = (Inr (), example_empty) \<and>
   coll_inv example_empty \<and>
   wf_documents (documents example_empty) \<and>
   documents example_empty = [] \<and>
   deleteOne example_deps (JObj []) example_empty = (Inr (DeleteResult 0 True), example_empty)"
proof -
  have i1: "coll_inv example_unloaded"
    by (simp add: coll_inv_def example_unloaded_def Collection_new_def)
  have w1: "wf_documents (documents example_loaded)"
    using example_wf by (simp add: example_loaded_def)
  have l2: "ensureLoaded example_deps example_empty = (Inr (), example_empty)"
    by (simp add: ensureLoaded_def example_empty_def)
  have i2: "coll_inv example_empty"
    by (simp add: coll_inv_def example_empty_def)
  have w2: "wf_documents (documents example_empty)"
    by (simp add: wf_documents_def example_empty_def)
  show ?thesis
    using deleteOne_empty_filter [OF example_load i1 w1] deleteOne_empty_filter [OF l2 i2 w2]
      example_load i1 w1 l2 i2 w2
    by (simp add: example_loaded_def example_documents_def example_empty_def)
qed


section \<open>The direct lookup for an ID filter\<close>

lemma id_filter_ok: "filter_ok L (JObj [(''_id'', JStr i)])"
  by (simp add: filter_ok_def is_operator_key_def valid_condition_def)

lemma id_filter_eval:
  assumes "get_prop d ''_id'' = Some (JStr k)"
  shows "eval_filter d (JObj [(''_id'', JStr i)]) = (k = i)"
proof (cases d)
  case (JObj kvs)
  then show ?thesis
    using assms
    by (auto simp: is_operator_key_def eval_field_def eval_condition_def)
qed (use assms in auto)

lemma find_by_key:
  assumes "wf_documents ds"
      and "\<And>k d. (k, d) \<in> set ds \<Longrightarrow> P d = (k = i)"
  shows "List.find P (map snd ds) = map_of ds i"
  using assms
proof (induction ds)
  case Nil
  then show ?case by simp
next
  case (Cons p ds)
  obtain k d where p: "p = (k, d)" by (cases p)
  from Cons.prems(1) p have wf: "wf_documents ds"
    using wf_documents_Cons [of k d ds] by auto
  have "List.find P (map snd ds) = map_of ds i"
    using Cons.IH [OF wf] Cons.prems(2) by simp
  moreover have "P d = (k = i)"
    using Cons.prems(2) [of k d] p by simp
  ultimately show ?case
    using p by auto
qed

lemma wf_documents_mem:
  "wf_documents ds \<Longrightarrow> (k, d) \<in> set ds \<Longrightarrow> k \<noteq> [] \<and> get_prop d ''_id'' = Some (JStr k)"
  by (auto simp: wf_documents_def list_all_iff)

lemma find_id_filter:
  assumes "wf_documents ds"
  shows "List.find (\<lambda>d. eval_filter d (JObj [(''_id'', JStr i)])) (map snd ds) = map_of ds i"
proof (rule find_by_key [OF assms])
  fix k d
  assume "(k, d) \<in> set ds"
  then have "get_prop d ''_id'' = Some (JStr k)"
    using wf_documents_mem [OF assms] by simp
  then show "eval_filter d (JObj [(''_id'', JStr i)]) = (k = i)"
    by (rule id_filter_eval)
qed

lemma findByQuery_id_filter:
  "wf_documents ds \<Longrightarrow> findByQuery D ds (JObj [(''_id'', JStr i)]) = Inr (map_of ds i)"
  by (simp only: findByQuery_def findFirst_def findAllDocuments_def id_filter_ok
      find_id_filter if_True)

lemma wf_documents_lookup:
  "wf_documents ds \<Longrightarrow> map_of ds i = Some d \<Longrightarrow> i \<noteq> [] \<and> get_prop d ''_id'' = Some (JStr i)"
  by (induction ds) (auto simp: wf_documents_def split: if_splits)

lemma deleteById_absent:
  "i \<noteq> [] \<Longrightarrow> map_of (documents s) i = None \<Longrightarrow>
     deleteById D (Some (JStr i)) s = (Inr (DeleteResult 0 True), s)"
  by (simp add: deleteById_def deleteDocument_def requireId_def)

lemma deleteByQuery_id_filter:
  assumes "wf_documents (documents s)" and "i \<noteq> []"
  shows "deleteByQuery D (JObj [(''_id'', JStr i)]) s = deleteById D (Some (JStr i)) s"
proof (cases "map_of (documents s) i")
  case None
  then show ?thesis
    using assms by (simp add: deleteByQuery_def findByQuery_id_filter deleteById_absent)
next
  case (Some d)
  then show ?thesis
    using assms wf_documents_lookup [OF assms(1) Some] get_prop_object [of d "''_id''"]
    by (simp add: deleteByQuery_def findByQuery_id_filter)
qed

lemma validateFilter_id:
  "validateFilter (JObj [(''_id'', JStr i)]) = (if i = [] then Inl InvalidArgument else Inr ())"
  by (simp add: validateFilter_def Validate_object_def Validate_nonEmptyString_def)

text \<open>
  Claim C5. For \<open>findOne\<close> and \<open>deleteOne\<close>, a filter of exactly \<open>{_id: i}\<close> with a
  string \<open>i\<close> gives the outcome (result and state) that the same filter gives when it is
  sent through the query engine, for every collection whose documents satisfy the invariant
  of the data model; and for a non-empty \<open>i\<close> the outcome is that of the lookup of \<open>i\<close>
  in the documents map, respectively of the deletion by that id, with no query evaluated.
\<close>

theorem id_filter_direct_lookup:
  assumes "wf_documents (documents (snd (ensureLoaded D s)))"
  shows "findOne D (JObj [(''_id'', JStr i)]) s =
           findOne_viaQueryEngine D (JObj [(''_id'', JStr i)]) s \<and>
         deleteOne D (JObj [(''_id'', JStr i)]) s =
           deleteOne_viaQueryEngine D (JObj [(''_id'', JStr i)]) s \<and>
         (i \<noteq> [] \<and> fst (ensureLoaded D s) = Inr () \<longrightarrow>
            findOne D (JObj [(''_id'', JStr i)]) s =
              (Inr (map_of (documents (snd (ensureLoaded D s))) i), snd (ensureLoaded D s)) \<and>
            deleteOne D (JObj [(''_id'', JStr i)]) s =
              deleteById D (Some (JStr i)) (snd (ensureLoaded D s)))"
proof (cases "ensureLoaded D s")
  case (Pair r s1)
  with assms have wf: "wf_documents (documents s1)" by simp
  show ?thesis
  proof (cases r)
    case (Inl e)
    with Pair show ?thesis
      by (simp add: findOne_def findOne_viaQueryEngine_def deleteOne_def
          deleteOne_viaQueryEngine_def)
  next
    case (Inr u)
    with Pair show ?thesis
      using wf
      by (simp add: findOne_def findOne_viaQueryEngine_def deleteOne_def
          deleteOne_viaQueryEngine_def validateFilter_id findDocumentById_def requireId_def
          findByQuery_id_filter deleteByQuery_id_filter)
  qed
qed

text \<open>Claim C5 on the example collection, for the id \<open>b\<close>.\<close>

theorem id_filter_direct_lookup_witness:
  "wf_documents (documents (snd (ensureLoaded example_deps example_unloaded))) \<and>
   findOne example_deps (JObj [(''_id'', JStr ''b'')]) example_unloaded =
     findOne_viaQueryEngine example_deps (JObj [(''_id'', JStr ''b'')]) example_unloaded \<and>
   deleteOne example_deps (JObj [(''_id'', JStr ''b'')]) example_unloaded =
     deleteOne_viaQueryEngine example_deps (JObj [(''_id'', JStr ''b'')]) example_unloaded \<and>
   findOne example_deps (JObj [(''_id'', JStr ''b'')]) example_unloaded =
     (Inr (Some (JObj [(''_id'', JStr ''b''), (''n'', JNum 2)])), example_loaded)"
proof -
  have w: "wf_documents (documents (snd (ensureLoaded example_deps example_unloaded)))"
    using example_wf by (simp add: example_load example_loaded_def)
  note t = id_filter_direct_lookup [OF w, of "''b''"]
  have c: "findOne example_deps (JObj [(''_id'', JStr ''b'')]) example_unloaded =
     (Inr (Some (JObj [(''_id'', JStr ''b''), (''n'', JNum 2)])), example_loaded)"
    using t [THEN conjunct2, THEN conjunct2]
    by (simp add: example_load) (simp add: example_loaded_def example_documents_def)
  show ?thesis
    using w t [THEN conjunct1] t [THEN conjunct2, THEN conjunct1] c by (intro conjI)
qed


section \<open>Calls whose filter matches no document\<close>

lemma matches_none_id:
  assumes "wf_documents ds" and "matches_none D (JObj [(''_id'', JStr i)]) ds"
  shows "map_of ds i = None"
proof (rule ccontr)
  assume "map_of ds i \<noteq> None"
  then obtain d where d: "map_of ds i = Some d" by auto
  then have mem: "(i, d) \<in> set ds" by (rule map_of_SomeD)
  then have "eval_filter d (JObj [(''_id'', JStr i)])"
    using wf_documents_mem [OF assms(1) mem] id_filter_eval [of d i i] by simp
  moreover have "\<not> eval_filter d (JObj [(''_id'', JStr i)])"
    using assms(2) mem
    by (force simp del: eval_filter.simps
        simp: matches_none_def findAllDocuments_def list_all_iff)
  ultimately show False by simp
qed

lemma matches_none_findByQuery:
  "matches_none D flt ds \<Longrightarrow> findByQuery D ds flt = Inr None"
  by (simp add: matches_none_def findByQuery_def findFirst_def find_None_iff list_all_iff)

lemma matches_none_findMultipleByQuery:
  "matches_none D flt ds \<Longrightarrow> findMultipleByQuery D ds flt = Inr []"
  by (simp add: matches_none_def findMultipleByQuery_def findAll_def filter_empty_conv
      list_all_iff)

lemma matches_none_empty_filter:
  "matches_none D (JObj []) ds \<Longrightarrow> ds = []"
  by (cases ds) (simp_all add: matches_none_def findAllDocuments_def)

lemma id_filter_shape:
  assumes "validateFilter flt = Inr ()" and "is_id_filter flt"
  shows "\<exists>i. flt = JObj [(''_id'', JStr i)] \<and> i \<noteq> []"
proof (cases flt)
  case (JObj kvs)
  with assms(2) obtain v where kvs: "kvs = [(''_id'', v)]"
    by (cases kvs) (auto simp: is_id_filter_def)
  with assms(1) JObj show ?thesis
    by (auto simp: validateFilter_def Validate_object_def Validate_nonEmptyString_def
        split: json.splits if_splits)
qed (use assms in \<open>auto simp: is_id_filter_def\<close>)

lemma same_documents [simp]: "s\<lparr>documents := documents s\<rparr> = s"
  by simp

lemma updateDocumentWithOperators_absent:
  "i \<noteq> [] \<Longrightarrow> map_of ds i = None \<Longrightarrow>
     updateDocumentWithOperators D ds (Some (JStr i)) u = Inr (0, ds)"
  by (simp add: updateDocumentWithOperators_def requireId_def)

lemma replaceDocument_absent:
  "i \<noteq> [] \<Longrightarrow> map_of ds i = None \<Longrightarrow> replacement_ok (JObj [(''_id'', JStr i)]) doc \<Longrightarrow>
     replaceDocument ds (Some (JStr i)) doc = Inr (0, ds)"
  by (auto simp: replaceDocument_def requireId_def replacement_ok_def is_id_filter_def)

lemma updateOneWithOperators_none:
  assumes "wf_documents (documents s)" and "validateFilter flt = Inr ()"
      and "matches_none D flt (documents s)"
  shows "updateOneWithOperators D flt u s = (Inr (UpdateResult 0 0 True), s)"
proof (cases "is_id_filter flt")
  case True
  then obtain i where i: "flt = JObj [(''_id'', JStr i)]" "i \<noteq> []"
    using id_filter_shape [OF assms(2)] by auto
  then have "map_of (documents s) i = None"
    using matches_none_id assms by simp
  then show ?thesis
    using i by (simp add: updateOneWithOperators_def updateDocumentWithOperators_absent)
next
  case False
  then show ?thesis
    using matches_none_findByQuery [OF assms(3)]
    by (auto simp: updateOneWithOperators_def is_id_filter_def Let_def)
qed

lemma updateOneWithReplacement_none:
  assumes "wf_documents (documents s)" and "validateFilter flt = Inr ()"
      and "matches_none D flt (documents s)"
      and "list_ex is_operator_key (object_keys u) \<or> replacement_ok flt u"
  shows "updateOneWithReplacement D flt u s = (Inr (UpdateResult 0 0 True), s)"
proof (cases "is_id_filter flt")
  case True
  then obtain i where i: "flt = JObj [(''_id'', JStr i)]" "i \<noteq> []"
    using id_filter_shape [OF assms(2)] by auto
  then have "map_of (documents s) i = None"
    using matches_none_id assms by simp
  then have "updateDocument D (documents s) (Some (JStr i)) u = Inr (0, documents s)"
    using i assms(4)
    by (auto simp: updateDocument_def updateDocumentWithOperators_absent
        replaceDocument_absent)
  then show ?thesis
    using i by (simp add: updateOneWithReplacement_def)
next
  case False
  then show ?thesis
    using matches_none_findByQuery [OF assms(3)]
    by (auto simp: updateOneWithReplacement_def is_id_filter_def Let_def)
qed

lemma as_filter_object: "\<not> is_string f \<Longrightarrow> as_filter f = f"
  by (simp add: as_filter_def)

lemma updateOne_none:
  assumes "ensureLoaded D s = (Inr (), s1)" and "wf_documents (documents s1)"
      and "validateFilter (as_filter f) = Inr ()"
      and "matches_none D (as_filter f) (documents s1)"
      and "Validate_object u False = Inr ()"
      and "Validate_validateUpdateObject u NoOptions = Inr ()"
      and "list_ex is_operator_key (object_keys u) \<or> replacement_ok (as_filter f) u"
  shows "updateOne D f u s = (Inr (UpdateResult 0 0 True), s1)"
proof -
  have "updateOne D f u s =
          (if list_ex is_operator_key (object_keys u)
           then updateOneWithOperators D (as_filter f) u s1
           else updateOneWithReplacement D (as_filter f) u s1)"
    using assms(1,3,5,6) by (auto simp: updateOne_def as_filter_def Let_def)
  then show ?thesis
    using updateOneWithOperators_none [OF assms(2,3,4)]
      updateOneWithReplacement_none [OF assms(2,3,4,7)] by simp
qed

lemma updateMany_none:
  assumes "ensureLoaded D s = (Inr (), s1)"
      and "validateFilter f = Inr ()"
      and "matches_none D f (documents s1)"
      and "Validate_object u False = Inr ()"
      and "Validate_validateUpdateObject u RequireOperators = Inr ()"
  shows "updateMany D f u s = (Inr (UpdateResult 0 0 True), s1)"
  using assms matches_none_findMultipleByQuery [OF assms(3)]
  by (simp add: updateMany_def)

lemma replaceOne_none:
  assumes "ensureLoaded D s = (Inr (), s1)" and "wf_documents (documents s1)"
      and "validateFilter (as_filter f) = Inr ()"
      and "matches_none D (as_filter f) (documents s1)"
      and "Validate_object doc False = Inr ()"
      and "Validate_validateUpdateObject doc ForbidOperators = Inr ()"
      and "replacement_ok (as_filter f) doc"
  shows "replaceOne D f doc s = (Inr (UpdateResult 0 0 True), s1)"
proof (cases "is_id_filter (as_filter f)")
  case True
  then obtain i where i: "as_filter f = JObj [(''_id'', JStr i)]" "i \<noteq> []"
    using id_filter_shape [OF assms(3)] by auto
  then have "map_of (documents s1) i = None"
    using matches_none_id assms(2,4) by simp
  then have "replaceDocument (documents s1) (Some (JStr i)) doc = Inr (0, documents s1)"
    using i assms(7) by (simp add: replaceDocument_absent)
  then show ?thesis
    using assms(1,3,5,6) i
    by (simp add: replaceOne_def Let_def as_filter_def split: if_splits)
next
  case False
  then show ?thesis
    using assms(1,3,5,6) matches_none_findByQuery [OF assms(4)]
    by (auto simp: replaceOne_def Let_def as_filter_def is_id_filter_def split: if_splits)
qed

lemma deleteOne_none:
  assumes "ensureLoaded D s = (Inr (), s1)" and "wf_documents (documents s1)"
      and "validateFilter f = Inr ()"
      and "matches_none D f (documents s1)"
  shows "deleteOne D f s = (Inr (DeleteResult 0 True), s1)"
proof (cases "is_id_filter f")
  case True
  then obtain i where i: "f = JObj [(''_id'', JStr i)]" "i \<noteq> []"
    using id_filter_shape [OF assms(3)] by auto
  then have "map_of (documents s1) i = None"
    using matches_none_id assms(2,4) by simp
  then show ?thesis
    using assms(1,3) i by (simp add: deleteOne_def deleteById_absent)
next
  case False
  show ?thesis
  proof (cases "object_keys f = []")
    case True
    with assms(3) have "f = JObj []"
      by (cases f) (auto simp: validateFilter_def Validate_object_def)
    then show ?thesis
      using assms(1,3) matches_none_empty_filter [of D "documents s1"] assms(4)
      by (simp add: deleteOne_def findAllDocuments_def)
  next
    case ne: False
    then show ?thesis
      using assms(1,3) False matches_none_findByQuery [OF assms(4)]
      by (auto simp: deleteOne_def deleteByQuery_def is_id_filter_def Let_def)
  qed
qed

text \<open>
  Claim C7. A call of \<open>updateOne\<close>, \<open>updateMany\<close>, \<open>replaceOne\<close> or \<open>deleteOne\<close> whose
  arguments pass validation and whose filter (given as a filter or, for \<open>updateOne\<close> and
  \<open>replaceOne\<close>, as an id string) no stored document satisfies returns
  \<open>{matchedCount: 0, modifiedCount: 0, acknowledged: true}\<close>, respectively
  \<open>{deletedCount: 0, acknowledged: true}\<close>, and the state after it is the state \<open>s1\<close> the
  lazy load leaves: documents, metadata, dirty flag, master index and the blobs are
  untouched, and on a loaded collection nothing at all has changed.
\<close>

theorem no_match_changes_nothing:
  assumes "ensureLoaded D s = (Inr (), s1)"
      and "wf_documents (documents s1)"
      and "validateFilter (as_filter f) = Inr ()"
      and "matches_none D (as_filter f) (documents s1)"
  shows "(Validate_object u False = Inr () \<and>
          Validate_validateUpdateObject u NoOptions = Inr () \<and>
          (list_ex is_operator_key (object_keys u) \<or> replacement_ok (as_filter f) u) \<longrightarrow>
            updateOne D f u s = (Inr (UpdateResult 0 0 True), s1)) \<and>
         (\<not> is_string f \<and> Validate_object u False = Inr () \<and>
          Validate_validateUpdateObject u RequireOperators = Inr () \<longrightarrow>
            updateMany D f u s = (Inr (UpdateResult 0 0 True), s1)) \<and>
         (Validate_object doc False = Inr () \<and>
          Validate_validateUpdateObject doc ForbidOperators = Inr () \<and>
          replacement_ok (as_filter f) doc \<longrightarrow>
            replaceOne D f doc s = (Inr (UpdateResult 0 0 True), s1)) \<and>
         (\<not> is_string f \<longrightarrow> deleteOne D f s = (Inr (DeleteResult 0 True), s1)) \<and>
         (loaded s \<longrightarrow> s1 = s)"
  using updateOne_none [OF assms] updateMany_none [OF assms(1)] replaceOne_none [OF assms]
    deleteOne_none [OF assms(1,2)] assms(3,4) ensureLoaded_Inr(8) [OF assms(1)]
  by (auto simp: as_filter_object)


text \<open>Claim C7 on the loaded example collection, with a filter that finds nothing.\<close>

theorem no_match_changes_nothing_witness:
  "ensureLoaded example_deps example_loaded = (Inr (), example_loaded) \<and>
   wf_documents (documents example_loaded) \<and>
   validateFilter (as_filter (JObj [(''n'', JNum 9)])) = Inr () \<and>
   matches_none example_deps (as_filter (JObj [(''n'', JNum 9)])) (documents example_loaded) \<and>
   Validate_object (JObj [(''$set'', JObj [(''n'', JNum 1)])]) False = Inr () \<and>
   Validate_validateUpdateObject (JObj [(''$set'', JObj [(''n'', JNum 1)])]) NoOptions = Inr () \<and>
   Validate_validateUpdateObject (JObj [(''$set'', JObj [(''n'', JNum 1)])]) RequireOperators
     = Inr () \<and>
   list_ex is_operator_key (object_keys (JObj [(''$set'', JObj [(''n'', JNum 1)])])) \<and>
   \<not> is_string (JObj [(''n'', JNum 9)]) \<and>
   Validate_object (JObj [(''n'', JNum 5)]) False = Inr () \<and>
   Validate_validateUpdateObject (JObj [(''n'', JNum 5)]) ForbidOperators = Inr () \<and>
   replacement_ok (as_filter (JObj [(''n'', JNum 9)])) (JObj [(''n'', JNum 5)]) \<and>
   loaded example_loaded \<and>
   updateOne example_deps (JObj [(''n'', JNum 9)]) (JObj [(''$set'', JObj [(''n'', JNum 1)])])
     example_loaded = (Inr (UpdateResult 0 0 True), example_loaded) \<and>
   updateMany example_deps (JObj [(''n'', JNum 9)]) (JObj [(''$set'', JObj [(''n'', JNum 1)])])
     example_loaded = (Inr (UpdateResult 0 0 True), example_loaded) \<and>
   replaceOne example_deps (JObj [(''n'', JNum 9)]) (JObj [(''n'', JNum 5)]) example_loaded =
     (Inr (UpdateResult 0 0 True), example_loaded) \<and>
   deleteOne example_deps (JObj [(''n'', JNum 9)]) example_loaded =
     (Inr (DeleteResult 0 True), example_loaded)"
proof -
  have h1: "ensureLoaded example_deps example_loaded = (Inr (), example_loaded)"
    by (simp add: ensureLoaded_def example_loaded_def)
  have h2: "wf_documents (documents example_loaded)"
    using example_wf by (simp add: example_loaded_def)
  have h3: "validateFilter (as_filter (JObj [(''n'', JNum 9)])) = Inr ()"
    by (simp add: validateFilter_def as_filter_def Validate_object_def)
  have h4: "matches_none example_deps (as_filter (JObj [(''n'', JNum 9)]))
              (documents example_loaded)"
    by code_simp
  have v: "Validate_object (JObj [(''$set'', JObj [(''n'', JNum 1)])]) False = Inr ()"
    "Validate_validateUpdateObject (JObj [(''$set'', JObj [(''n'', JNum 1)])]) NoOptions = Inr ()"
    "Validate_validateUpdateObject (JObj [(''$set'', JObj [(''n'', JNum 1)])]) RequireOperators
       = Inr ()"
    "list_ex is_operator_key (object_keys (JObj [(''$set'', JObj [(''n'', JNum 1)])]))"
    "\<not> is_string (JObj [(''n'', JNum 9)])"
    "Validate_object (JObj [(''n'', JNum 5)]) False = Inr ()"
    "Validate_validateUpdateObject (JObj [(''n'', JNum 5)]) ForbidOperators = Inr ()"
    "replacement_ok (as_filter (JObj [(''n'', JNum 9)])) (JObj [(''n'', JNum 5)])"
    "loaded example_loaded"
    by (simp_all add: Validate_object_def Validate_validateUpdateObject_def
        is_operator_key_def replacement_ok_def as_filter_def is_id_filter_def
        example_loaded_def)
  show ?thesis
    using no_match_changes_nothing [OF h1 h2 h3 h4,
        of "JObj [(''$set'', JObj [(''n'', JNum 1)])]" "JObj [(''n'', JNum 5)]"]
      h1 h2 h3 h4 v
    by simp
qed


section \<open>The document count, step by step\<close>

lemma length_update_present:
  "map_of al k = Some v \<Longrightarrow> length (AList.update k w al) = length al"
  by (induction al) (auto split: if_splits)

lemma updateDocumentWithOperators_length:
  "updateDocumentWithOperators D ds idv u = Inr (n, ds') \<Longrightarrow> length ds' = length ds"
  by (auto simp: updateDocumentWithOperators_def length_update_present
      split: sum.splits option.splits if_splits)

lemma replaceDocument_length:
  "replaceDocument ds idv doc = Inr (n, ds') \<Longrightarrow> length ds' = length ds"
  by (auto simp: replaceDocument_def length_update_present
      split: sum.splits option.splits if_splits)

lemma updateDocument_length:
  "updateDocument D ds idv doc = Inr (n, ds') \<Longrightarrow> length ds' = length ds"
  by (auto simp: updateDocument_def dest: updateDocumentWithOperators_length
      replaceDocument_length split: if_splits)

lemma deleteDocument_unchanged:
  "deleteDocument ds idv = Inr (0, ds') \<Longrightarrow> ds' = ds"
  by (auto simp: deleteDocument_def split: sum.splits option.splits)

lemma snd_andThen_return [simp]: "snd (andThen r (\<lambda>_ s'. (x, s'))) = snd r"
  by (cases r; cases "fst r") (auto simp: andThen_def)

lemma count_consistent_touch_same:
  assumes "count_consistent s" and "loaded s"
  shows "count_consistent (snd (touchIf D b None s))"
proof (cases b)
  case True
  from assms obtain m where m: "collectionMetadata s = Some m"
    "md_documentCount m = length (documents s)"
    by (auto simp: count_consistent_def split: option.splits)
  show ?thesis
    using touchIf_True [OF assms(2) m(1), of D None] m(2) True
    by (auto simp: count_consistent_def updateLastModified_def)
next
  case False
  then show ?thesis using assms by simp
qed

lemma count_consistent_touch_count:
  assumes "collectionMetadata s = Some m" and "loaded s"
  shows "count_consistent (snd (touchIf D True (Some (length (documents s))) s))"
  using touchIf_True [OF assms(2,1), of D "Some (length (documents s))"]
  by (auto simp: count_consistent_def updateLastModified_def setDocumentCount_def)

lemma count_consistent_documents:
  "count_consistent s \<Longrightarrow> length ds = length (documents s) \<Longrightarrow>
     count_consistent (s\<lparr>documents := ds\<rparr>)"
  by (auto simp: count_consistent_def split: option.splits)

lemma count_consistent_modified:
  assumes "count_consistent s" and "loaded s" and "length ds = length (documents s)"
  shows "count_consistent (snd (touchIf D b None (s\<lparr>documents := ds\<rparr>)))"
  using count_consistent_touch_same [OF count_consistent_documents [OF assms(1,3)], of D b]
    assms(2)
  by simp

lemma count_consistent_after_operators:
  assumes "count_consistent s" and "loaded s"
      and "updateDocumentWithOperators D (documents s) idv u = Inr (n, ds)"
  shows "count_consistent (snd (touchIf D b None (s\<lparr>documents := ds\<rparr>)))"
  using count_consistent_modified [OF assms(1,2)] updateDocumentWithOperators_length [OF assms(3)]
  by simp

lemma count_consistent_after_update:
  assumes "count_consistent s" and "loaded s"
      and "updateDocument D (documents s) idv u = Inr (n, ds)"
  shows "count_consistent (snd (touchIf D b None (s\<lparr>documents := ds\<rparr>)))"
  using count_consistent_modified [OF assms(1,2)] updateDocument_length [OF assms(3)]
  by simp

lemma count_consistent_after_replace:
  assumes "count_consistent s" and "loaded s"
      and "replaceDocument (documents s) idv u = Inr (n, ds)"
  shows "count_consistent (snd (touchIf D b None (s\<lparr>documents := ds\<rparr>)))"
  using count_consistent_modified [OF assms(1,2)] replaceDocument_length [OF assms(3)]
  by simp

lemma updateEach_frame:
  "updateEach D u ms acc s = (r, s') \<Longrightarrow>
     length (documents s') = length (documents s) \<and> s' = s\<lparr>documents := documents s'\<rparr>"
proof (induction ms arbitrary: acc s)
  case Nil
  then show ?case by auto
next
  case (Cons d ms)
  show ?case
  proof (cases "updateDocumentWithOperators D (documents s) (get_prop d ''_id'') u")
    case (Inl e)
    with Cons.prems show ?thesis by (auto split: if_splits)
  next
    case (Inr p)
    obtain n ds where p: "p = (n, ds)" by (cases p)
    show ?thesis
    proof (cases "d = JNull")
      case True
      with Cons.prems show ?thesis by auto
    next
      case False
    with Inr Cons.prems p
    have "updateEach D u ms (acc + n) (s\<lparr>documents := ds\<rparr>) = (r, s')" by simp
    from Cons.IH [OF this] updateDocumentWithOperators_length [of D "documents s" _ u n ds]
      Inr p
    show ?thesis by auto
    qed
  qed
qed

lemma count_consistent_updateOneWithOperators:
  assumes "count_consistent s" and "loaded s"
  shows "count_consistent (snd (updateOneWithOperators D flt u s))"
  using assms
  by (auto simp: updateOneWithOperators_def Let_def
      intro: count_consistent_after_operators
      split: sum.splits option.splits prod.splits)

lemma count_consistent_updateOneWithReplacement:
  assumes "count_consistent s" and "loaded s"
  shows "count_consistent (snd (updateOneWithReplacement D flt u s))"
  using assms
  by (auto simp: updateOneWithReplacement_def Let_def
      intro: count_consistent_after_update
      split: sum.splits option.splits prod.splits)

lemma count_consistent_updateOne:
  assumes "count_consistent (snd (ensureLoaded D s))"
  shows "count_consistent (snd (updateOne D f u s))"
proof (cases "ensureLoaded D s")
  case (Pair r s1)
  show ?thesis
  proof (cases r)
    case (Inl e)
    with Pair assms show ?thesis by (simp add: updateOne_def)
  next
    case (Inr x)
    with Pair have l: "loaded s1" using ensureLoaded_Inr(1) [of D s s1] by simp
    from Pair assms have c: "count_consistent s1" by simp
    show ?thesis
      using Pair Inr c count_consistent_updateOneWithOperators [OF c l]
        count_consistent_updateOneWithReplacement [OF c l]
      by (auto simp: updateOne_def Let_def split: sum.splits)
  qed
qed

lemma count_consistent_replaceOne:
  assumes "count_consistent (snd (ensureLoaded D s))"
  shows "count_consistent (snd (replaceOne D f doc s))"
proof (cases "ensureLoaded D s")
  case (Pair r s1)
  show ?thesis
  proof (cases r)
    case (Inl e)
    with Pair assms show ?thesis by (simp add: replaceOne_def)
  next
    case (Inr x)
    with Pair have l: "loaded s1" using ensureLoaded_Inr(1) [of D s s1] by simp
    from Pair assms have c: "count_consistent s1" by simp
    show ?thesis
      using Pair Inr c l
      by (auto simp: replaceOne_def Let_def
          intro: count_consistent_after_replace
          split: sum.splits option.splits prod.splits)
  qed
qed

lemma count_consistent_updateMany:
  assumes "count_consistent (snd (ensureLoaded D s))"
  shows "count_consistent (snd (updateMany D f u s))"
proof (cases "ensureLoaded D s")
  case (Pair r s1)
  show ?thesis
  proof (cases r)
    case (Inl e)
    with Pair assms show ?thesis by (simp add: updateMany_def)
  next
    case (Inr x)
    with Pair have l: "loaded s1" using ensureLoaded_Inr(1) [of D s s1] by simp
    from Pair assms have c: "count_consistent s1" by simp
    have each: "count_consistent
                  (snd (andThen (updateEach D u ms 0 s1)
                          (\<lambda>modified s2. andThen (touchIf D (0 < modified) None s2)
                             (\<lambda>_ s3. (Inr (UpdateResult k modified True), s3)))))"
      for ms k
    proof (cases "updateEach D u ms 0 s1")
      case (Pair r2 s2)
      from updateEach_frame [OF Pair]
      have s2: "length (documents s2) = length (documents s1)"
        "s2 = s1\<lparr>documents := documents s2\<rparr>" by auto
      have c2: "count_consistent s2" and l2: "loaded s2"
        using count_consistent_documents [OF c s2(1)] s2(2) l
        by (metis, metis collection.select_convs(3) collection.surjective
            collection.update_convs(5))
      show ?thesis
        using Pair count_consistent_touch_same [OF c2 l2] c2
        by (cases r2) auto
    qed
    show ?thesis
      using Pair Inr c each
      by (auto simp: updateMany_def Let_def split: sum.splits)
  qed
qed

lemma count_consistent_deleteById:
  assumes "count_consistent s" and "loaded s"
  shows "count_consistent (snd (deleteById D idv s))"
proof (cases "deleteDocument (documents s) idv")
  case (Inl e)
  then show ?thesis using assms by (simp add: deleteById_def)
next
  case (Inr p)
  obtain n ds where p: "p = (n, ds)" by (cases p)
  from assms obtain m where m: "collectionMetadata s = Some m"
    by (auto simp: count_consistent_def split: option.splits)
  show ?thesis
  proof (cases "n = 0")
    case True
    with Inr p have "ds = documents s" using deleteDocument_unchanged by simp
    with True Inr p assms show ?thesis by (simp add: deleteById_def)
  next
    case False
    have "count_consistent
            (snd (touchIf D True (Some (length (documents (s\<lparr>documents := ds\<rparr>))))
                    (s\<lparr>documents := ds\<rparr>)))"
      by (rule count_consistent_touch_count [of _ m]) (use m assms(2) in auto)
    with False Inr p show ?thesis by (simp add: deleteById_def)
  qed
qed

lemma count_consistent_deleteOne:
  assumes "count_consistent (snd (ensureLoaded D s))"
  shows "count_consistent (snd (deleteOne D f s))"
proof (cases "ensureLoaded D s")
  case (Pair r s1)
  show ?thesis
  proof (cases r)
    case (Inl e)
    with Pair assms show ?thesis by (simp add: deleteOne_def)
  next
    case (Inr x)
    with Pair have l: "loaded s1" using ensureLoaded_Inr(1) [of D s s1] by simp
    from Pair assms have c: "count_consistent s1" by simp
    show ?thesis
      using Pair Inr c count_consistent_deleteById [OF c l]
      by (auto simp: deleteOne_def deleteByQuery_def Let_def
          split: sum.splits option.splits list.splits)
  qed
qed

lemma count_consistent_insertOne:
  assumes "count_consistent (snd (ensureLoaded D s))"
  shows "count_consistent (snd (insertOne D doc s))"
proof (cases "ensureLoaded D s")
  case (Pair r s1)
  show ?thesis
  proof (cases r)
    case (Inl e)
    with Pair assms show ?thesis by (simp add: insertOne_def)
  next
    case (Inr x)
    with Pair have l: "loaded s1" using ensureLoaded_Inr(1) [of D s s1] by simp
    from Pair assms have c: "count_consistent s1" by simp
    from c l obtain m where m: "collectionMetadata s1 = Some m"
      by (auto simp: count_consistent_def split: option.splits)
    show ?thesis
    proof (cases "insertDocument D (documents s1) doc")
      case (Inl e)
      with Pair Inr c show ?thesis by (simp add: insertOne_def)
    next
      case ins: (Inr p)
      obtain i d ds where p: "p = (i, d, ds)" by (cases p)
      have "insertOne D doc s =
              andThen (touchIf D True (Some (length (documents (s1\<lparr>documents := ds\<rparr>))))
                         (s1\<lparr>documents := ds\<rparr>))
                (\<lambda>_ s3. (Inr (InsertResult i True), s3))"
        using Pair Inr ins p
        by (auto simp: insertOne_def touchIf_def andThen_def Let_def markDirty_def
            split: prod.splits sum.splits)
      then show ?thesis
        using count_consistent_touch_count [of "s1\<lparr>documents := ds\<rparr>" m D] m l
        by simp
    qed
  qed
qed

section \<open>Invalid arguments\<close>

text \<open>
  Claim C8 as stated ("the validation error surfaces without reading the collection blob
  through FileService and without modifying documents or metadata") fails: \<open>findOne\<close>
  with the filter \<open>{_id: ""}\<close> on the collection that is not yet loaded throws the
  validation error after it has read the blob and set the documents and the metadata.
\<close>

theorem validation_error_counterexample:
  "fst (findOne example_deps (JObj [(''_id'', JStr [])]) example_unloaded) = Inl InvalidArgument \<and>
   trace example_unloaded = [] \<and>
   trace (snd (findOne example_deps (JObj [(''_id'', JStr [])]) example_unloaded)) =
     [FileRead ''f''] \<and>
   documents example_unloaded = [] \<and>
   documents (snd (findOne example_deps (JObj [(''_id'', JStr [])]) example_unloaded)) =
     example_documents \<and>
   collectionMetadata example_unloaded = None \<and>
   collectionMetadata (snd (findOne example_deps (JObj [(''_id'', JStr [])]) example_unloaded)) =
     Some example_metadata"
  by (simp add: findOne_def example_load validateFilter_id)
     (simp add: example_loaded_def example_unloaded_def Collection_new_def)

text \<open>
  Claim C8, amended. For every public method called with an argument that fails
  validation, the validation error surfaces after the lazy load that every method starts
  with, and the state is the one the load leaves: a collection that is already loaded is
  exactly as it was, and a collection that is not yet loaded differs from before in the one
  \<open>readFile\<close> call, the documents, the metadata and the loaded flag; nothing is written or
  published and the dirty flag is as it was.
\<close>

theorem validation_error_after_lazy_load:
  assumes "ensureLoaded D s = (Inr (), s1)"
  shows "(validateFilter flt = Inl e \<longrightarrow>
            findOne D flt s = (Inl e, s1) \<and> find D flt s = (Inl e, s1) \<and>
            deleteOne D flt s = (Inl e, s1) \<and> countDocuments D flt s = (Inl e, s1)) \<and>
         (updateOne_checks f u = Inl e \<longrightarrow> updateOne D f u s = (Inl e, s1)) \<and>
         (updateMany_checks f u = Inl e \<longrightarrow> updateMany D f u s = (Inl e, s1)) \<and>
         (replaceOne_checks f u = Inl e \<longrightarrow> replaceOne D f u s = (Inl e, s1)) \<and>
         (insertDocument D (documents s1) u = Inl e \<longrightarrow> insertOne D u s = (Inl e, s1)) \<and>
         (loaded s \<longrightarrow> s1 = s) \<and>
         (\<not> loaded s \<longrightarrow>
            s1 = s\<lparr>trace := trace s @ [FileRead (driveFileId s)], documents := documents s1,
                    collectionMetadata := collectionMetadata s1, loaded := True\<rparr>)"
proof (intro conjI impI)
  assume "validateFilter flt = Inl e"
  then show "findOne D flt s = (Inl e, s1)" "find D flt s = (Inl e, s1)"
    "deleteOne D flt s = (Inl e, s1)" "countDocuments D flt s = (Inl e, s1)"
    using assms by (simp_all add: findOne_def find_def deleteOne_def countDocuments_def)
next
  assume "updateOne_checks f u = Inl e"
  then show "updateOne D f u s = (Inl e, s1)"
    using assms
    by (auto simp: updateOne_def updateOne_checks_def Let_def split: sum.splits if_splits)
next
  assume "updateMany_checks f u = Inl e"
  then show "updateMany D f u s = (Inl e, s1)"
    using assms
    by (auto simp: updateMany_def updateMany_checks_def Let_def split: sum.splits if_splits)
next
  assume "replaceOne_checks f u = Inl e"
  then show "replaceOne D f u s = (Inl e, s1)"
    using assms
    by (auto simp: replaceOne_def replaceOne_checks_def Let_def split: sum.splits if_splits)
next
  assume "insertDocument D (documents s1) u = Inl e"
  then show "insertOne D u s = (Inl e, s1)"
    using assms by (simp add: insertOne_def)
next
  assume "loaded s"
  then show "s1 = s" using ensureLoaded_Inr(8) [OF assms] by simp
next
  assume "\<not> loaded s"
  then show "s1 = s\<lparr>trace := trace s @ [FileRead (driveFileId s)], documents := documents s1,
                    collectionMetadata := collectionMetadata s1, loaded := True\<rparr>"
    using assms
    by (auto simp: ensureLoaded_def loadData_def Let_def
        split: option.splits file_content.splits)
qed


text \<open>
  Claim C8, amended, on the example collection before and after it is loaded: an empty
  \<open>_id\<close> in the filter, and \<open>null\<close> as update, replacement and document.
\<close>

theorem validation_error_after_lazy_load_witness:
  "ensureLoaded example_deps example_unloaded = (Inr (), example_loaded) \<and>
   validateFilter (JObj [(''_id'', JStr [])]) = Inl InvalidArgument \<and>
   findOne example_deps (JObj [(''_id'', JStr [])]) example_unloaded =
     (Inl InvalidArgument, example_loaded) \<and>
   find example_deps (JObj [(''_id'', JStr [])]) example_unloaded =
     (Inl InvalidArgument, example_loaded) \<and>
   deleteOne example_deps (JObj [(''_id'', JStr [])]) example_unloaded =
     (Inl InvalidArgument, example_loaded) \<and>
   countDocuments example_deps (JObj [(''_id'', JStr [])]) example_unloaded =
     (Inl InvalidArgument, example_loaded) \<and>
   updateOne_checks (JObj [(''n'', JNum 1)]) JNull = Inl InvalidArgument \<and>
   updateOne example_deps (JObj [(''n'', JNum 1)]) JNull example_unloaded =
     (Inl InvalidArgument, example_loaded) \<and>
   updateMany_checks (JObj [(''n'', JNum 1)]) JNull = Inl InvalidArgument \<and>
   updateMany example_deps (JObj [(''n'', JNum 1)]) JNull example_unloaded =
     (Inl InvalidArgument, example_loaded) \<and>
   replaceOne_checks (JObj [(''n'', JNum 1)]) JNull = Inl InvalidArgument \<and>
   replaceOne example_deps (JObj [(''n'', JNum 1)]) JNull example_unloaded =
     (Inl InvalidArgument, example_loaded) \<and>
   insertDocument example_deps (documents example_loaded) JNull = Inl InvalidArgument \<and>
   insertOne example_deps JNull example_unloaded = (Inl InvalidArgument, example_loaded) \<and>
   \<not> loaded example_unloaded \<and>
   example_loaded =
     example_unloaded\<lparr>trace := trace example_unloaded @ [FileRead (driveFileId example_unloaded)],
       documents := documents example_loaded,
       collectionMetadata := collectionMetadata example_loaded, loaded := True\<rparr> \<and>
   ensureLoaded example_deps example_loaded = (Inr (), example_loaded) \<and>
   loaded example_loaded \<and>
   findOne example_deps (JObj [(''_id'', JStr [])]) example_loaded =
     (Inl InvalidArgument, example_loaded)"
proof -
  have l2: "ensureLoaded example_deps example_loaded = (Inr (), example_loaded)"
    by (simp add: ensureLoaded_def example_loaded_def)
  have h: "validateFilter (JObj [(''_id'', JStr [])]) = Inl InvalidArgument"
    "updateOne_checks (JObj [(''n'', JNum 1)]) JNull = Inl InvalidArgument"
    "updateMany_checks (JObj [(''n'', JNum 1)]) JNull = Inl InvalidArgument"
    "replaceOne_checks (JObj [(''n'', JNum 1)]) JNull = Inl InvalidArgument"
    "insertDocument example_deps (documents example_loaded) JNull = Inl InvalidArgument"
    "\<not> loaded example_unloaded" "loaded example_loaded"
    by (simp_all add: validateFilter_id updateOne_checks_def updateMany_checks_def
        replaceOne_checks_def Validate_object_def Validate_nonEmptyString_def
        validateFilter_def insertDocument_def
        example_unloaded_def example_loaded_def Collection_new_def)
  show ?thesis
    using validation_error_after_lazy_load [OF example_load,
        of "JObj [(''_id'', JStr [])]" InvalidArgument "JObj [(''n'', JNum 1)]" JNull]
      validation_error_after_lazy_load [OF l2,
        of "JObj [(''_id'', JStr [])]" InvalidArgument "JObj [(''n'', JNum 1)]" JNull]
      example_load l2 h
    by simp
qed

section \<open>What a mutation does before it returns\<close>

lemma rpo_refl [simp]: "reads_and_publishes_only s s"
  by (simp add: reads_and_publishes_only_def)

lemma rpo_trans:
  assumes "reads_and_publishes_only s s1" and "reads_and_publishes_only s1 s2"
  shows "reads_and_publishes_only s s2"
proof -
  let ?ok = "\<lambda>ev. case ev of FileRead h \<Rightarrow> True | IndexPublish n m \<Rightarrow> True | _ \<Rightarrow> False"
  obtain e1 where e1: "trace s1 = trace s @ e1" "list_all ?ok e1"
    using assms(1) unfolding reads_and_publishes_only_def
    by (metis append_take_drop_id)
  obtain e2 where e2: "trace s2 = trace s1 @ e2" "list_all ?ok e2"
    using assms(2) unfolding reads_and_publishes_only_def
    by (metis append_take_drop_id)
  show ?thesis
    using e1 e2 assms by (simp add: reads_and_publishes_only_def)
qed

lemma rpo_documents [simp]: "reads_and_publishes_only s (s\<lparr>documents := ds\<rparr>)"
  by (simp add: reads_and_publishes_only_def)

lemma rpo_ensureLoaded: "reads_and_publishes_only s (snd (ensureLoaded D s))"
  by (auto simp: reads_and_publishes_only_def ensureLoaded_def loadData_def Let_def andThen_def
      split: option.splits file_content.splits)

lemma rpo_updateMetadata: "reads_and_publishes_only s (snd (updateMetadata D ch s))"
proof (cases "ensureLoaded D s")
  case (Pair r s1)
  have a: "reads_and_publishes_only s s1"
    using rpo_ensureLoaded [of s D] Pair by simp
  have b: "reads_and_publishes_only s1 (snd (updateMetadata D ch s))"
    using Pair
    by (cases r)
       (auto simp: updateMetadata_def reads_and_publishes_only_def Let_def
        split: option.splits)
  show ?thesis by (rule rpo_trans [OF a b])
qed

lemma rpo_touchIf: "reads_and_publishes_only s (snd (touchIf D b ch s))"
proof (cases b)
  case True
  obtain r s1 where u: "updateMetadata D ch s = (r, s1)" by (cases "updateMetadata D ch s")
  have "reads_and_publishes_only s1 (snd (touchIf D True ch s))"
    using u by (cases r) (auto simp: touchIf_def markDirty_def reads_and_publishes_only_def)
  then show ?thesis
    using rpo_updateMetadata [of s D ch] u True rpo_trans by fastforce
next
  case False
  then show ?thesis by simp
qed

lemma rpo_touch_documents:
  "reads_and_publishes_only s (snd (touchIf D b ch (s\<lparr>documents := ds\<rparr>)))"
  using rpo_trans [OF rpo_documents rpo_touchIf] .


lemma rpo_andThen:
  assumes "reads_and_publishes_only s (snd r)"
      and "\<And>x s1. r = (Inr x, s1) \<Longrightarrow> reads_and_publishes_only s1 (snd (f x s1))"
  shows "reads_and_publishes_only s (snd (andThen r f))"
proof (cases r)
  case (Pair a s1)
  show ?thesis
  proof (cases a)
    case (Inl e)
    with Pair assms(1) show ?thesis by simp
  next
    case (Inr x)
    with Pair assms(1) assms(2) [of x s1] show ?thesis
      using rpo_trans by fastforce
  qed
qed

lemma touchIf_loaded:
  "loaded s \<Longrightarrow> collectionMetadata s \<noteq> None \<Longrightarrow>
     touchIf D True ch s = (Inr (), touched D ch s)"
  by (auto simp: touchIf_def updateMetadata_def ensureLoaded_def markDirty_def touched_def
      Let_def split: option.splits)

lemma touched_fields [simp]:
  "loaded (touched D ch s) = loaded s"
  "documents (touched D ch s) = documents s"
  "collectionMetadata (touched D ch s) \<noteq> None"
  "fileStore (touched D ch s) = fileStore s"
  "driveFileId (touched D ch s) = driveFileId s"
  by (simp_all add: touched_def Let_def)

lemma ensureLoaded_trace:
  "ensureLoaded D s = (Inr (), s1) \<Longrightarrow>
     trace s1 = trace s @ (if loaded s then [] else [FileRead (driveFileId s)])"
  by (cases "loaded s") (auto dest: ensureLoaded_Inr)

lemma published_touched:
  assumes "ensureLoaded D s = (Inr (), s1)"
  shows "published D False s (touched D ch (s1\<lparr>documents := ds\<rparr>))"
    and "published D True s (touched D (Some (length ds)) (s1\<lparr>documents := ds\<rparr>))"
  using ensureLoaded_trace [OF assms]
  by (auto simp: published_def touched_def Let_def updateLastModified_def
      setDocumentCount_def update_conv' split: option.splits)

lemma rpo_updateOneWithOperators:
  "reads_and_publishes_only s (snd (updateOneWithOperators D flt u s))"
  by (auto simp: updateOneWithOperators_def Let_def rpo_touch_documents
      split: sum.splits option.splits prod.splits)

lemma rpo_updateOneWithReplacement:
  "reads_and_publishes_only s (snd (updateOneWithReplacement D flt u s))"
  by (auto simp: updateOneWithReplacement_def Let_def rpo_touch_documents
      split: sum.splits option.splits prod.splits)

lemma rpo_updateOne: "reads_and_publishes_only s (snd (updateOne D f u s))"
  unfolding updateOne_def
  by (rule rpo_andThen [OF rpo_ensureLoaded])
     (auto simp: Let_def rpo_updateOneWithOperators rpo_updateOneWithReplacement
      split: sum.splits)

lemma rpo_replaceOne: "reads_and_publishes_only s (snd (replaceOne D f doc s))"
  unfolding replaceOne_def
  by (rule rpo_andThen [OF rpo_ensureLoaded])
     (auto simp: Let_def rpo_touch_documents split: sum.splits option.splits prod.splits)

lemma rpo_updateEach: "reads_and_publishes_only s (snd (updateEach D u ms acc s))"
proof (cases "updateEach D u ms acc s")
  case (Pair r s')
  from updateEach_frame [OF Pair] have "s' = s\<lparr>documents := documents s'\<rparr>" by simp
  then have "reads_and_publishes_only s s'"
    using rpo_documents [of s "documents s'"] by simp
  with Pair show ?thesis by simp
qed

lemma rpo_updateMany: "reads_and_publishes_only s (snd (updateMany D f u s))"
  unfolding updateMany_def
proof (rule rpo_andThen [OF rpo_ensureLoaded], goal_cases)
  case (1 x s1)
  have "reads_and_publishes_only s1
          (snd (andThen (updateEach D u ms 0 s1)
                  (\<lambda>modified s2. andThen (touchIf D (0 < modified) None s2)
                     (\<lambda>_ s3. (Inr (UpdateResult k modified True), s3)))))" for ms k
    by (rule rpo_andThen [OF rpo_updateEach]) (simp add: rpo_touchIf)
  then show ?case
    by (auto simp: Let_def split: sum.splits)
qed

lemma rpo_deleteById: "reads_and_publishes_only s (snd (deleteById D idv s))"
  by (auto simp: deleteById_def Let_def rpo_touch_documents split: sum.splits prod.splits)

lemma rpo_deleteOne: "reads_and_publishes_only s (snd (deleteOne D f s))"
  unfolding deleteOne_def
  by (rule rpo_andThen [OF rpo_ensureLoaded])
     (auto simp: Let_def deleteByQuery_def rpo_deleteById
      split: sum.splits option.splits list.splits)

lemma insertOne_loaded:
  assumes "ensureLoaded D s = (Inr (), s1)" and "collectionMetadata s1 \<noteq> None"
  shows "insertOne D doc s =
           (case insertDocument D (documents s1) doc of
              Inl e \<Rightarrow> (Inl e, s1)
            | Inr (i, d, ds) \<Rightarrow>
                (Inr (InsertResult i True),
                 touched D (Some (length ds)) (s1\<lparr>documents := ds\<rparr>)))"
proof -
  have l: "loaded s1" using ensureLoaded_Inr(1) [OF assms(1)] .
  show ?thesis
    using assms l
    by (auto simp: insertOne_def updateMetadata_def ensureLoaded_def markDirty_def
        touched_def Let_def split: sum.splits option.splits prod.splits)
qed

lemma rpo_insertOne: "reads_and_publishes_only s (snd (insertOne D doc s))"
  unfolding insertOne_def
proof (rule rpo_andThen [OF rpo_ensureLoaded], goal_cases)
  case (1 x s1)
  have "reads_and_publishes_only s1
          (snd (andThen (updateMetadata D ch (s1\<lparr>documents := ds\<rparr>))
                  (\<lambda>_ s3. (Inr (InsertResult i True), markDirty s3))))" for ch ds i
  proof (rule rpo_andThen)
    show "reads_and_publishes_only s1 (snd (updateMetadata D ch (s1\<lparr>documents := ds\<rparr>)))"
      using rpo_trans [OF rpo_documents rpo_updateMetadata] .
  qed (simp add: markDirty_def reads_and_publishes_only_def)
  then show ?case
    by (auto simp: Let_def split: sum.splits prod.splits)
qed

lemma finish_loaded:
  "loaded s \<Longrightarrow> collectionMetadata s \<noteq> None \<Longrightarrow>
     andThen (touchIf D b ch (s\<lparr>documents := ds\<rparr>)) (\<lambda>_ s1. (Inr r, s1)) =
       (Inr r, if b then touched D ch (s\<lparr>documents := ds\<rparr>) else s\<lparr>documents := ds\<rparr>)"
  by (cases b) (simp_all add: touchIf_loaded)

lemma published_updateOneWithOperators:
  assumes "ensureLoaded D s0 = (Inr (), s)" and "collectionMetadata s \<noteq> None"
      and "fst (updateOneWithOperators D flt u s) = Inr r" and "0 < modifiedCount r"
  shows "published D False s0 (snd (updateOneWithOperators D flt u s))"
  using assms(2-) ensureLoaded_Inr(1) [OF assms(1)]
  by (auto simp: updateOneWithOperators_def Let_def finish_loaded
      published_touched(1) [OF assms(1)]
      split: sum.splits option.splits prod.splits if_splits)

lemma published_updateOneWithReplacement:
  assumes "ensureLoaded D s0 = (Inr (), s)" and "collectionMetadata s \<noteq> None"
      and "fst (updateOneWithReplacement D flt u s) = Inr r" and "0 < modifiedCount r"
  shows "published D False s0 (snd (updateOneWithReplacement D flt u s))"
  using assms(2-) ensureLoaded_Inr(1) [OF assms(1)]
  by (auto simp: updateOneWithReplacement_def Let_def finish_loaded
      published_touched(1) [OF assms(1)]
      split: sum.splits option.splits prod.splits if_splits)

lemma published_updateOne:
  assumes "coll_inv s" and "fst (updateOne D f u s) = Inr r" and "0 < modifiedCount r"
  shows "published D False s (snd (updateOne D f u s))"
proof (cases "ensureLoaded D s")
  case (Pair a s1)
  show ?thesis
  proof (cases a)
    case (Inl e)
    with Pair assms(2) show ?thesis by (simp add: updateOne_def)
  next
    case (Inr x)
    with Pair have load: "ensureLoaded D s = (Inr (), s1)" by simp
    have m: "collectionMetadata s1 \<noteq> None"
      using ensureLoaded_metadata [OF assms(1) load] .
    show ?thesis
      using load assms(2,3) published_updateOneWithOperators [OF load m, of _ u r]
        published_updateOneWithReplacement [OF load m, of _ u r]
      by (auto simp: updateOne_def Let_def split: sum.splits if_splits)
  qed
qed

lemma replaceOne_invalid:
  "ensureLoaded D s = (Inr (), s1) \<Longrightarrow> replaceOne_checks f doc = Inl e \<Longrightarrow>
     replaceOne D f doc s = (Inl e, s1)"
  by (auto simp: replaceOne_def replaceOne_checks_def Let_def split: sum.splits if_splits)

lemma replaceOne_valid:
  "ensureLoaded D s = (Inr (), s1) \<Longrightarrow> replaceOne_checks f doc = Inr () \<Longrightarrow>
     replaceOne D f doc s =
       (if is_id_filter (as_filter f) then
          (case replaceDocument (documents s1) (get_prop (as_filter f) ''_id'') doc of
             Inl e \<Rightarrow> (Inl e, s1)
           | Inr (modified, ds) \<Rightarrow>
               andThen (touchIf D (0 < modified) None (s1\<lparr>documents := ds\<rparr>)) (\<lambda>_ s2.
                 (Inr (UpdateResult (if 0 < modified then 1 else 0) modified True), s2)))
        else
          (case findByQuery D (documents s1) (as_filter f) of
             Inl e \<Rightarrow> (Inl e, s1)
           | Inr None \<Rightarrow> (Inr (UpdateResult 0 0 True), s1)
           | Inr (Some matchingDoc) \<Rightarrow>
               if falsy matchingDoc then (Inr (UpdateResult 0 0 True), s1)
               else
                 (case replaceDocument (documents s1) (get_prop matchingDoc ''_id'') doc of
                    Inl e \<Rightarrow> (Inl e, s1)
                  | Inr (modified, ds) \<Rightarrow>
                      andThen (touchIf D (0 < modified) None (s1\<lparr>documents := ds\<rparr>)) (\<lambda>_ s2.
                        (Inr (UpdateResult 1 modified True), s2)))))"
  by (simp add: replaceOne_def replaceOne_checks_def Let_def as_filter_def is_id_filter_def
      split: sum.splits if_splits)

lemma published_replaceOne:
  assumes "coll_inv s" and "fst (replaceOne D f doc s) = Inr r" and "0 < modifiedCount r"
  shows "published D False s (snd (replaceOne D f doc s))"
proof (cases "ensureLoaded D s")
  case (Pair a s1)
  show ?thesis
  proof (cases a)
    case (Inl e)
    with Pair assms(2) show ?thesis by (simp add: replaceOne_def)
  next
    case (Inr x)
    with Pair have load: "ensureLoaded D s = (Inr (), s1)" by simp
    have m: "collectionMetadata s1 \<noteq> None"
      using ensureLoaded_metadata [OF assms(1) load] .
    have l: "loaded s1" using ensureLoaded_Inr(1) [OF load] .
    have v: "replaceOne_checks f doc = Inr ()"
      using replaceOne_invalid [OF load, of f doc] assms(2)
      by (cases "replaceOne_checks f doc") auto
    show ?thesis
      using assms(2,3) l m
      unfolding replaceOne_valid [OF load v]
      by (auto simp: finish_loaded published_touched(1) [OF load]
          split: sum.splits option.splits prod.splits if_splits)
  qed
qed

lemma published_updateMany:
  assumes "coll_inv s" and "fst (updateMany D f u s) = Inr r" and "0 < modifiedCount r"
  shows "published D False s (snd (updateMany D f u s))"
proof (cases "ensureLoaded D s")
  case (Pair a s1)
  show ?thesis
  proof (cases a)
    case (Inl e)
    with Pair assms(2) show ?thesis by (simp add: updateMany_def)
  next
    case (Inr x)
    with Pair have load: "ensureLoaded D s = (Inr (), s1)" by simp
    have m: "collectionMetadata s1 \<noteq> None"
      using ensureLoaded_metadata [OF assms(1) load] .
    have l: "loaded s1" using ensureLoaded_Inr(1) [OF load] .
    have each: "published D False s (snd res)"
      if res: "res = andThen (updateEach D u ms 0 s1)
                  (\<lambda>modified s2. andThen (touchIf D (0 < modified) None s2)
                     (\<lambda>_ s3. (Inr (UpdateResult k modified True), s3)))"
        and ok: "fst res = Inr r"
      for ms k res
    proof (cases "updateEach D u ms 0 s1")
      case (Pair r2 s2)
      from updateEach_frame [OF Pair] have s2: "s2 = s1\<lparr>documents := documents s2\<rparr>" by simp
      show ?thesis
      proof (cases r2)
        case (Inl e)
        with Pair ok res show ?thesis by simp
      next
        case (Inr n)
        have "andThen (touchIf D (0 < n) None (s1\<lparr>documents := documents s2\<rparr>))
                (\<lambda>_ s3. (Inr (UpdateResult k n True), s3)) =
              (Inr (UpdateResult k n True),
               if 0 < n then touched D None (s1\<lparr>documents := documents s2\<rparr>)
               else s1\<lparr>documents := documents s2\<rparr>)"
          by (rule finish_loaded [OF l m])
        with Pair Inr s2 ok res assms(3)
          published_touched(1) [OF load, of None "documents s2"]
        show ?thesis
          by (auto split: if_splits)
      qed
    qed
    show ?thesis
      using load assms(2,3) each
      by (auto simp: updateMany_def Let_def split: sum.splits if_splits)
  qed
qed

lemma published_deleteById:
  assumes "ensureLoaded D s0 = (Inr (), s)" and "collectionMetadata s \<noteq> None"
      and "fst (deleteById D idv s) = Inr r" and "0 < deletedCount r"
  shows "published D True s0 (snd (deleteById D idv s))"
  using assms(2-) ensureLoaded_Inr(1) [OF assms(1)]
  by (auto simp: deleteById_def Let_def finish_loaded published_touched(2) [OF assms(1)]
      split: sum.splits prod.splits if_splits)

lemma published_deleteOne:
  assumes "coll_inv s" and "fst (deleteOne D f s) = Inr r" and "0 < deletedCount r"
  shows "published D True s (snd (deleteOne D f s))"
proof (cases "ensureLoaded D s")
  case (Pair a s1)
  show ?thesis
  proof (cases a)
    case (Inl e)
    with Pair assms(2) show ?thesis by (simp add: deleteOne_def)
  next
    case (Inr x)
    with Pair have load: "ensureLoaded D s = (Inr (), s1)" by simp
    have m: "collectionMetadata s1 \<noteq> None"
      using ensureLoaded_metadata [OF assms(1) load] .
    show ?thesis
      using load assms(2,3) published_deleteById [OF load m, of _ r]
      by (auto simp: deleteOne_def deleteByQuery_def Let_def
          split: sum.splits option.splits list.splits if_splits)
  qed
qed

lemma published_insertOne:
  assumes "coll_inv s" and "fst (insertOne D doc s) = Inr r"
  shows "published D True s (snd (insertOne D doc s))"
proof (cases "ensureLoaded D s")
  case (Pair a s1)
  show ?thesis
  proof (cases a)
    case (Inl e)
    with Pair assms(2) show ?thesis by (simp add: insertOne_def)
  next
    case (Inr x)
    with Pair have load: "ensureLoaded D s = (Inr (), s1)" by simp
    have m: "collectionMetadata s1 \<noteq> None"
      using ensureLoaded_metadata [OF assms(1) load] .
    show ?thesis
      using assms(2)
      by (auto simp: insertOne_loaded [OF load m] published_touched(2) [OF load]
          split: sum.splits prod.splits)
  qed
qed

text \<open>
  Claim C1, amended. For every public mutation call (\<open>insertOne\<close>, \<open>updateOne\<close>,
  \<open>updateMany\<close>, \<open>replaceOne\<close>, \<open>deleteOne\<close>), however it ends: the only calls that
  Collection.js makes to its collaborators are the read of a lazy load and publications to
  the master index, so it makes no call to the lock service and writes no blob. And when
  the call returns having changed a document, it has set \<open>lastUpdated\<close> in the metadata
  (and \<open>documentCount\<close> to the number of the documents, for \<open>insertOne\<close> and
  \<open>deleteOne\<close>), made one publication of that metadata to the master index (when the
  database has one), and set the dirty flag.
\<close>

theorem mutation_publishes_without_lock_or_write:
  assumes "coll_inv s"
  shows "reads_and_publishes_only s (snd (insertOne D doc s)) \<and>
         reads_and_publishes_only s (snd (updateOne D f u s)) \<and>
         reads_and_publishes_only s (snd (updateMany D f u s)) \<and>
         reads_and_publishes_only s (snd (replaceOne D f doc s)) \<and>
         reads_and_publishes_only s (snd (deleteOne D f s)) \<and>
         (\<forall>r. fst (insertOne D doc s) = Inr r \<longrightarrow>
            published D True s (snd (insertOne D doc s))) \<and>
         (\<forall>r. fst (updateOne D f u s) = Inr r \<and> 0 < modifiedCount r \<longrightarrow>
            published D False s (snd (updateOne D f u s))) \<and>
         (\<forall>r. fst (updateMany D f u s) = Inr r \<and> 0 < modifiedCount r \<longrightarrow>
            published D False s (snd (updateMany D f u s))) \<and>
         (\<forall>r. fst (replaceOne D f doc s) = Inr r \<and> 0 < modifiedCount r \<longrightarrow>
            published D False s (snd (replaceOne D f doc s))) \<and>
         (\<forall>r. fst (deleteOne D f s) = Inr r \<and> 0 < deletedCount r \<longrightarrow>
            published D True s (snd (deleteOne D f s)))"
  using assms
  by (auto intro: rpo_insertOne rpo_updateOne rpo_updateMany rpo_replaceOne rpo_deleteOne
      published_insertOne published_updateOne published_updateMany published_replaceOne
      published_deleteOne)

text \<open>
  Claim C1 as stated ("the call acquires the process-wide lock, writes the collection blob
  through FileService, publishes the new metadata and releases the lock before returning")
  fails. \<open>insertOne\<close> on the loaded example collection returns after one publication to
  the master index: it has made no call to the lock service and none to \<open>writeFile\<close>, the
  blob is the one that was loaded and the collection is dirty. \<open>updateOne\<close> with a filter
  that no document satisfies returns without any call to a collaborator, the publication
  included.
\<close>

theorem mutation_without_write_counterexample:
  "fst (insertOne example_deps (JObj [(''n'', JNum 3)]) example_loaded) =
     Inr (InsertResult ''g1'' True) \<and>
   trace example_loaded = [FileRead ''f''] \<and>
   trace (snd (insertOne example_deps (JObj [(''n'', JNum 3)]) example_loaded)) =
     [FileRead ''f'',
      IndexPublish ''c'' (example_metadata\<lparr>md_lastUpdated := 7, md_documentCount := 3\<rparr>)] \<and>
   fileStore (snd (insertOne example_deps (JObj [(''n'', JNum 3)]) example_loaded)) =
     [(''f'', Blob (Some example_documents) (Some example_metadata))] \<and>
   dirty (snd (insertOne example_deps (JObj [(''n'', JNum 3)]) example_loaded)) \<and>
   fst (updateOne example_deps (JObj [(''n'', JNum 9)])
          (JObj [(''$set'', JObj [(''n'', JNum 5)])]) example_loaded) =
     Inr (UpdateResult 0 0 True) \<and>
   trace (snd (updateOne example_deps (JObj [(''n'', JNum 9)])
                 (JObj [(''$set'', JObj [(''n'', JNum 5)])]) example_loaded)) =
     [FileRead ''f'']"
  by code_simp

text \<open>
  Claim C1, amended, on the example collection, not yet loaded: each of the five calls
  changes a document.
\<close>

theorem mutation_publishes_without_lock_or_write_witness:
  "coll_inv example_unloaded \<and>
   reads_and_publishes_only example_unloaded
     (snd (insertOne example_deps (JObj [(''n'', JNum 3)]) example_unloaded)) \<and>
   reads_and_publishes_only example_unloaded
     (snd (updateOne example_deps (JObj [(''n'', JNum 1)])
             (JObj [(''$set'', JObj [(''n'', JNum 5)])]) example_unloaded)) \<and>
   reads_and_publishes_only example_unloaded
     (snd (updateMany example_deps (JObj [(''n'', JNum 1)])
             (JObj [(''$set'', JObj [(''n'', JNum 5)])]) example_unloaded)) \<and>
   reads_and_publishes_only example_unloaded
     (snd (replaceOne example_deps (JObj [(''n'', JNum 1)]) (JObj [(''n'', JNum 3)])
             example_unloaded)) \<and>
   reads_and_publishes_only example_unloaded
     (snd (deleteOne example_deps (JObj [(''n'', JNum 1)]) example_unloaded)) \<and>
   fst (insertOne example_deps (JObj [(''n'', JNum 3)]) example_unloaded) =
     Inr (InsertResult ''g1'' True) \<and>
   published example_deps True example_unloaded
     (snd (insertOne example_deps (JObj [(''n'', JNum 3)]) example_unloaded)) \<and>
   fst (updateOne example_deps (JObj [(''n'', JNum 1)])
          (JObj [(''$set'', JObj [(''n'', JNum 5)])]) example_unloaded) =
     Inr (UpdateResult 1 1 True) \<and>
   published example_deps False example_unloaded
     (snd (updateOne example_deps (JObj [(''n'', JNum 1)])
             (JObj [(''$set'', JObj [(''n'', JNum 5)])]) example_unloaded)) \<and>
   fst (updateMany example_deps (JObj [(''n'', JNum 1)])
          (JObj [(''$set'', JObj [(''n'', JNum 5)])]) example_unloaded) =
     Inr (UpdateResult 1 1 True) \<and>
   published example_deps False example_unloaded
     (snd (updateMany example_deps (JObj [(''n'', JNum 1)])
             (JObj [(''$set'', JObj [(''n'', JNum 5)])]) example_unloaded)) \<and>
   fst (replaceOne example_deps (JObj [(''n'', JNum 1)]) (JObj [(''n'', JNum 3)])
          example_unloaded) = Inr (UpdateResult 1 1 True) \<and>
   published example_deps False example_unloaded
     (snd (replaceOne example_deps (JObj [(''n'', JNum 1)]) (JObj [(''n'', JNum 3)])
             example_unloaded)) \<and>
   fst (deleteOne example_deps (JObj [(''n'', JNum 1)]) example_unloaded) =
     Inr (DeleteResult 1 True) \<and>
   published example_deps True example_unloaded
     (snd (deleteOne example_deps (JObj [(''n'', JNum 1)]) example_unloaded))"
proof -
  have h: "coll_inv example_unloaded"
    by (simp add: coll_inv_def example_unloaded_def Collection_new_def)
  have e: "fst (insertOne example_deps (JObj [(''n'', JNum 3)]) example_unloaded) =
     Inr (InsertResult ''g1'' True)"
    "fst (updateOne example_deps (JObj [(''n'', JNum 1)])
          (JObj [(''$set'', JObj [(''n'', JNum 5)])]) example_unloaded) =
     Inr (UpdateResult 1 1 True)"
    "fst (updateMany example_deps (JObj [(''n'', JNum 1)])
          (JObj [(''$set'', JObj [(''n'', JNum 5)])]) example_unloaded) =
     Inr (UpdateResult 1 1 True)"
    "fst (replaceOne example_deps (JObj [(''n'', JNum 1)]) (JObj [(''n'', JNum 3)])
          example_unloaded) = Inr (UpdateResult 1 1 True)"
    "fst (deleteOne example_deps (JObj [(''n'', JNum 1)]) example_unloaded) =
     Inr (DeleteResult 1 True)"
    by code_simp+
  show ?thesis
    using mutation_publishes_without_lock_or_write [OF h,
        of example_deps "JObj [(''n'', JNum 3)]" "JObj [(''n'', JNum 1)]"
           "JObj [(''$set'', JObj [(''n'', JNum 5)])]"]
      h e
    by simp
qed


section \<open>The document count as an invariant\<close>

lemma count_consistent_load:
  assumes "count_invariant s"
  shows "count_consistent (snd (ensureLoaded D s))"
proof (cases "loaded s")
  case True
  with assms show ?thesis by (simp add: ensureLoaded_loaded count_invariant_def)
next
  case False
  with assms show ?thesis
    by (auto simp: count_invariant_def stored_count_consistent_def count_consistent_def
        ensureLoaded_def loadData_def CollectionMetadata_new_def Let_def
        split: option.splits file_content.splits)
qed

lemma stored_count_consistent_kept:
  "reads_and_publishes_only s s' \<Longrightarrow> stored_count_consistent s \<Longrightarrow>
     stored_count_consistent s'"
  by (simp add: reads_and_publishes_only_def stored_count_consistent_def)

lemma snd_findOne: "snd (findOne D flt s) = snd (ensureLoaded D s)"
  by (cases "ensureLoaded D s"; cases "fst (ensureLoaded D s)")
     (auto simp: findOne_def findDocumentById_def Let_def split: sum.splits list.splits)

lemma snd_find: "snd (find D flt s) = snd (ensureLoaded D s)"
  by (cases "ensureLoaded D s"; cases "fst (ensureLoaded D s)")
     (auto simp: find_def split: sum.splits)

lemma snd_countDocuments: "snd (countDocuments D flt s) = snd (ensureLoaded D s)"
  by (cases "ensureLoaded D s"; cases "fst (ensureLoaded D s)")
     (auto simp: countDocuments_def split: sum.splits)

lemma snd_getMetadata: "snd (getMetadata D s) = snd (ensureLoaded D s)"
  by (cases "ensureLoaded D s"; cases "fst (ensureLoaded D s)")
     (auto simp: getMetadata_def)

lemma count_invariant_load:
  assumes "count_invariant s"
  shows "count_invariant (snd (ensureLoaded D s))"
  using count_consistent_load [OF assms] assms
    stored_count_consistent_kept [OF rpo_ensureLoaded, of s D]
  by (simp add: count_invariant_def)

lemma count_invariant_save:
  assumes "count_invariant s"
  shows "count_invariant (snd (save s))"
  using assms
  by (auto simp: count_invariant_def count_consistent_def stored_count_consistent_def
      save_def saveData_def Let_def update_conv' split: option.splits)

text \<open>
  Claim C4. The invariant is that \<open>documentCount\<close> equals the number of entries of the
  documents map whenever the collection is loaded, and that the blob of the collection
  records the number of its documents. If it holds before a call of a public method, it
  holds in the state the call leaves, whether the call returns or throws: each of
  \<open>insertOne\<close>, \<open>updateOne\<close>, \<open>updateMany\<close>, \<open>replaceOne\<close> and \<open>deleteOne\<close> has
  re-established the equality before it returns, the reading methods and \<open>save\<close> keep it,
  and a new collection has it as soon as its blob does.
\<close>

theorem documentCount_invariant:
  assumes "count_invariant s"
  shows "count_invariant (snd (insertOne D doc s)) \<and>
         count_invariant (snd (updateOne D f u s)) \<and>
         count_invariant (snd (updateMany D f u s)) \<and>
         count_invariant (snd (replaceOne D f doc s)) \<and>
         count_invariant (snd (deleteOne D f s)) \<and>
         count_invariant (snd (findOne D f s)) \<and>
         count_invariant (snd (find D f s)) \<and>
         count_invariant (snd (countDocuments D f s)) \<and>
         count_invariant (snd (getMetadata D s)) \<and>
         count_invariant (snd (save s)) \<and>
         count_invariant (Collection_new nm fileId files fails idx) =
           stored_count_consistent (Collection_new nm fileId files fails idx)"
proof -
  note c = count_consistent_load [OF assms, of D]
  have st: "stored_count_consistent s" using assms by (simp add: count_invariant_def)
  have k: "stored_count_consistent s'" if "reads_and_publishes_only s s'" for s'
    using stored_count_consistent_kept [OF that st] .
  have "count_invariant (Collection_new nm fileId files fails idx) =
          stored_count_consistent (Collection_new nm fileId files fails idx)"
    by (simp add: count_invariant_def count_consistent_def Collection_new_def)
  then show ?thesis
    using count_consistent_insertOne [OF c] count_consistent_updateOne [OF c]
      count_consistent_updateMany [OF c] count_consistent_replaceOne [OF c]
      count_consistent_deleteOne [OF c] count_invariant_load [OF assms, of D]
      count_invariant_save [OF assms]
      k [OF rpo_insertOne] k [OF rpo_updateOne] k [OF rpo_updateMany] k [OF rpo_replaceOne]
      k [OF rpo_deleteOne]
    by (simp add: count_invariant_def snd_findOne snd_find snd_countDocuments
        snd_getMetadata)
qed

text \<open>
  Claim C4 on the example collection; after the \<open>insertOne\<close> both the count and the size
  are 3.
\<close>

theorem documentCount_invariant_witness:
  "count_invariant example_unloaded \<and>
   count_invariant (snd (insertOne example_deps (JObj [(''n'', JNum 3)]) example_unloaded)) \<and>
   count_invariant (snd (updateOne example_deps (JObj [(''n'', JNum 1)])
                           (JObj [(''$set'', JObj [(''n'', JNum 5)])]) example_unloaded)) \<and>
   count_invariant (snd (updateMany example_deps (JObj [(''n'', JNum 1)])
                           (JObj [(''$set'', JObj [(''n'', JNum 5)])]) example_unloaded)) \<and>
   count_invariant (snd (replaceOne example_deps (JObj [(''n'', JNum 1)])
                           (JObj [(''n'', JNum 3)]) example_unloaded)) \<and>
   count_invariant (snd (deleteOne example_deps (JObj [(''n'', JNum 1)]) example_unloaded)) \<and>
   count_invariant (snd (save example_unloaded)) \<and>
   map_option md_documentCount
     (collectionMetadata (snd (insertOne example_deps (JObj [(''n'', JNum 3)]) example_unloaded)))
     = Some 3 \<and>
   length (documents (snd (insertOne example_deps (JObj [(''n'', JNum 3)]) example_unloaded))) = 3"
proof -
  have h: "count_invariant example_unloaded"
    by (simp add: count_invariant_def count_consistent_def stored_count_consistent_def
        example_unloaded_def Collection_new_def example_metadata_def example_documents_def)
  have c: "map_option md_documentCount
     (collectionMetadata (snd (insertOne example_deps (JObj [(''n'', JNum 3)]) example_unloaded)))
     = Some 3"
    "length (documents (snd (insertOne example_deps (JObj [(''n'', JNum 3)]) example_unloaded)))
       = 3"
    by code_simp+
  show ?thesis
    using documentCount_invariant [OF h, of example_deps "JObj [(''n'', JNum 3)]"
        "JObj [(''n'', JNum 1)]" "JObj [(''$set'', JObj [(''n'', JNum 5)])]"]
      h c
    by simp
qed

section \<open>The invariant of the fields\<close>

text \<open>
  A new collection satisfies \<open>coll_inv\<close>, and every public method keeps it: the theorems that
  assume it speak of the states a collection can be in.
\<close>

lemma coll_inv_ready: "loaded s \<Longrightarrow> collectionMetadata s \<noteq> None \<Longrightarrow> coll_inv s"
  by (simp add: coll_inv_def)

lemma coll_inv_touched [simp]: "loaded s \<Longrightarrow> coll_inv (touched D ch s)"
  by (simp add: coll_inv_def touched_def Let_def)

lemma coll_inv_documents [simp]: "coll_inv (s\<lparr>documents := ds\<rparr>) = coll_inv s"
  by (simp add: coll_inv_def)

lemma coll_inv_load:
  assumes "coll_inv s"
  shows "coll_inv (snd (ensureLoaded D s))"
  using assms
  by (auto simp: coll_inv_def ensureLoaded_def loadData_def Let_def
      split: option.splits file_content.splits)

lemma coll_inv_updateOneWithOperators:
  "loaded s \<Longrightarrow> collectionMetadata s \<noteq> None \<Longrightarrow>
     coll_inv (snd (updateOneWithOperators D flt u s))"
  by (auto simp: updateOneWithOperators_def Let_def finish_loaded coll_inv_ready
      split: sum.splits option.splits prod.splits)

lemma coll_inv_updateOneWithReplacement:
  "loaded s \<Longrightarrow> collectionMetadata s \<noteq> None \<Longrightarrow>
     coll_inv (snd (updateOneWithReplacement D flt u s))"
  by (auto simp: updateOneWithReplacement_def Let_def finish_loaded coll_inv_ready
      split: sum.splits option.splits prod.splits)

lemma coll_inv_deleteById:
  "loaded s \<Longrightarrow> collectionMetadata s \<noteq> None \<Longrightarrow> coll_inv (snd (deleteById D idv s))"
  by (auto simp: deleteById_def Let_def finish_loaded coll_inv_ready
      split: sum.splits prod.splits)

lemma coll_inv_kept:
  assumes "coll_inv s"
  shows "coll_inv (snd (insertOne D doc s)) \<and>
         coll_inv (snd (updateOne D f u s)) \<and>
         coll_inv (snd (updateMany D f u s)) \<and>
         coll_inv (snd (replaceOne D f doc s)) \<and>
         coll_inv (snd (deleteOne D f s)) \<and>
         coll_inv (snd (findOne D f s)) \<and>
         coll_inv (snd (find D f s)) \<and>
         coll_inv (snd (countDocuments D f s)) \<and>
         coll_inv (snd (getMetadata D s)) \<and>
         coll_inv (snd (save s)) \<and>
         coll_inv (Collection_new nm fileId files fails idx)"
proof (cases "ensureLoaded D s")
  case (Pair a s1)
  have new: "coll_inv (Collection_new nm fileId files fails idx)"
    by (simp add: coll_inv_def Collection_new_def)
  have sv: "coll_inv (snd (save s))"
    using assms by (auto simp: coll_inv_def save_def saveData_def Let_def split: option.splits)
  have rd: "coll_inv (snd (ensureLoaded D s))" using coll_inv_load [OF assms] .
  show ?thesis
  proof (cases a)
    case (Inl e)
    with Pair rd new sv show ?thesis
      by (simp add: snd_findOne snd_find snd_countDocuments snd_getMetadata insertOne_def
          updateOne_def updateMany_def replaceOne_def deleteOne_def)
  next
    case (Inr x)
    with Pair have load: "ensureLoaded D s = (Inr (), s1)" by simp
    have m: "collectionMetadata s1 \<noteq> None" using ensureLoaded_metadata [OF assms load] .
    have l: "loaded s1" using ensureLoaded_Inr(1) [OF load] .
    have ins: "coll_inv (snd (insertOne D doc s))"
      using l m
      by (auto simp: insertOne_loaded [OF load m] coll_inv_ready
          split: sum.splits prod.splits)
    have upd: "coll_inv (snd (updateOne D f u s))"
      using load l m coll_inv_updateOneWithOperators [OF l m, of D _ u]
        coll_inv_updateOneWithReplacement [OF l m, of D _ u]
      by (auto simp: updateOne_def Let_def coll_inv_ready split: sum.splits)
    have many: "coll_inv (snd (updateMany D f u s))"
    proof -
      have each: "coll_inv (snd (andThen (updateEach D u ms 0 s1)
                  (\<lambda>modified s2. andThen (touchIf D (0 < modified) None s2)
                     (\<lambda>_ s3. (Inr (UpdateResult k modified True), s3)))))" for ms k
      proof (cases "updateEach D u ms 0 s1")
        case (Pair r2 s2)
        from updateEach_frame [OF Pair] have s2: "s2 = s1\<lparr>documents := documents s2\<rparr>" by simp
        have "coll_inv (snd (andThen (touchIf D b None (s1\<lparr>documents := documents s2\<rparr>))
                (\<lambda>_ s3. (Inr (UpdateResult k n True), s3))))" for b n
          using l m by (simp add: finish_loaded coll_inv_ready)
        moreover have "coll_inv (s1\<lparr>documents := documents s2\<rparr>)"
          using l m by (simp add: coll_inv_ready)
        ultimately show ?thesis
          using Pair s2 by (cases r2) (auto simp: andThen_def)
      qed
      show ?thesis
        using load l m each
        by (auto simp: updateMany_def Let_def coll_inv_ready split: sum.splits)
    qed
    have rep: "coll_inv (snd (replaceOne D f doc s))"
    proof (cases "replaceOne_checks f doc")
      case (Inl e)
      then show ?thesis
        using replaceOne_invalid [OF load Inl] l m by (simp add: coll_inv_ready)
    next
      case (Inr y)
      then show ?thesis
        using l m
        unfolding replaceOne_valid [OF load Inr [simplified]]
        by (auto simp: finish_loaded coll_inv_ready
            split: sum.splits option.splits prod.splits)
    qed
    have del: "coll_inv (snd (deleteOne D f s))"
      using load l m coll_inv_deleteById [OF l m, of D]
      by (auto simp: deleteOne_def deleteByQuery_def Let_def coll_inv_ready
          split: sum.splits option.splits list.splits)
    show ?thesis
      using ins upd many rep del rd new sv
      by (simp add: snd_findOne snd_find snd_countDocuments snd_getMetadata)
  qed
qed

section \<open>Deleting and counting\<close>











section \<open>The counts of an update by ID\<close>

text \<open>
  Claim C2, at the inputs where the code departs from it. A stored document \<open>d\<close> has the
  id \<open>i\<close>, and the update engine returns for \<open>d\<close> and \<open>u\<close> a document structurally equal
  to \<open>d\<close>. Then \<open>updateOne\<close> by that id, written \<open>{_id: i}\<close> or \<open>i\<close>, returns
  \<open>matchedCount\<close> 0 with \<open>modifiedCount\<close> 0, although the filter matches \<open>d\<close>; the same
  update through a field filter that finds \<open>d\<close> returns \<open>matchedCount\<close> 1 with
  \<open>modifiedCount\<close> 0.
\<close>

theorem update_by_id_unchanged_reports_no_match:
  assumes "loaded s" and "i \<noteq> []" and "map_of (documents s) i = Some d"
      and "UpdateEngine_apply D d u = Inr d'" and "deep_equal d' d"
      and "Validate_object u False = Inr ()"
      and "Validate_validateUpdateObject u NoOptions = Inr ()"
      and "list_ex is_operator_key (object_keys u)"
  shows "updateOne D (JObj [(''_id'', JStr i)]) u s = (Inr (UpdateResult 0 0 True), s) \<and>
         updateOne D (JStr i) u s = (Inr (UpdateResult 0 0 True), s) \<and>
         (\<forall>flt. \<not> is_string flt \<and> validateFilter flt = Inr () \<and> \<not> is_id_filter flt \<and>
                findByQuery D (documents s) flt = Inr (Some d) \<and>
                get_prop d ''_id'' = Some (JStr i) \<longrightarrow>
                updateOne D flt u s = (Inr (UpdateResult 1 0 True), s))"
proof -
  have upd: "updateDocumentWithOperators D (documents s) (Some (JStr i)) u =
               Inr (0, documents s)"
    using assms(2-5) by (simp add: updateDocumentWithOperators_def requireId_def)
  have a: "updateOne D (JObj [(''_id'', JStr i)]) u s = (Inr (UpdateResult 0 0 True), s)"
    using assms(1,2,6,7,8) upd
    by (simp add: updateOne_def ensureLoaded_loaded validateFilter_id
        updateOneWithOperators_def)
  have b: "updateOne D (JStr i) u s = (Inr (UpdateResult 0 0 True), s)"
    using assms(1,6,7,8) upd
    by (simp add: updateOne_def ensureLoaded_loaded updateOneWithOperators_def)
  have c: "updateOne D flt u s = (Inr (UpdateResult 1 0 True), s)"
    if "\<not> is_string flt" "validateFilter flt = Inr ()" "\<not> is_id_filter flt"
      "findByQuery D (documents s) flt = Inr (Some d)" "get_prop d ''_id'' = Some (JStr i)"
    for flt
    using that assms(1,6,7,8) upd get_prop_object [of d "''_id''"]
    by (auto simp: updateOne_def ensureLoaded_loaded updateOneWithOperators_def
        is_id_filter_def Let_def)
  show ?thesis
    using a b c by blast
qed

text \<open>
  Claim C2 on the loaded example collection: \<open>{$set: {n: 1}}\<close> on the document \<open>a\<close>,
  whose \<open>n\<close> is 1, by id and through the filter \<open>{n: 1}\<close>.
\<close>

theorem update_by_id_unchanged_reports_no_match_witness:
  "loaded example_loaded \<and> ''a'' \<noteq> [] \<and>
   map_of (documents example_loaded) ''a'' = Some (JObj [(''_id'', JStr ''a''), (''n'', JNum 1)]) \<and>
   UpdateEngine_apply example_deps (JObj [(''_id'', JStr ''a''), (''n'', JNum 1)])
     (JObj [(''$set'', JObj [(''n'', JNum 1)])]) =
     Inr (JObj [(''_id'', JStr ''a''), (''n'', JNum 1)]) \<and>
   deep_equal (JObj [(''_id'', JStr ''a''), (''n'', JNum 1)])
     (JObj [(''_id'', JStr ''a''), (''n'', JNum 1)]) \<and>
   Validate_object (JObj [(''$set'', JObj [(''n'', JNum 1)])]) False = Inr () \<and>
   Validate_validateUpdateObject (JObj [(''$set'', JObj [(''n'', JNum 1)])]) NoOptions = Inr () \<and>
   list_ex is_operator_key (object_keys (JObj [(''$set'', JObj [(''n'', JNum 1)])])) \<and>
   updateOne example_deps (JObj [(''_id'', JStr ''a'')]) (JObj [(''$set'', JObj [(''n'', JNum 1)])])
     example_loaded = (Inr (UpdateResult 0 0 True), example_loaded) \<and>
   updateOne example_deps (JStr ''a'') (JObj [(''$set'', JObj [(''n'', JNum 1)])])
     example_loaded = (Inr (UpdateResult 0 0 True), example_loaded) \<and>
   \<not> is_string (JObj [(''n'', JNum 1)]) \<and>
   validateFilter (JObj [(''n'', JNum 1)]) = Inr () \<and>
   \<not> is_id_filter (JObj [(''n'', JNum 1)]) \<and>
   findByQuery example_deps (documents example_loaded) (JObj [(''n'', JNum 1)]) =
     Inr (Some (JObj [(''_id'', JStr ''a''), (''n'', JNum 1)])) \<and>
   get_prop (JObj [(''_id'', JStr ''a''), (''n'', JNum 1)]) ''_id'' = Some (JStr ''a'') \<and>
   updateOne example_deps (JObj [(''n'', JNum 1)]) (JObj [(''$set'', JObj [(''n'', JNum 1)])])
     example_loaded = (Inr (UpdateResult 1 0 True), example_loaded)"
proof -
  let ?d = "JObj [(''_id'', JStr ''a''), (''n'', JNum 1)]"
  let ?u = "JObj [(''$set'', JObj [(''n'', JNum 1)])]"
  let ?f = "JObj [(''n'', JNum 1)]"
  have h: "loaded example_loaded" "''a'' \<noteq> []"
    "map_of (documents example_loaded) ''a'' = Some ?d"
    "UpdateEngine_apply example_deps ?d ?u = Inr ?d"
    "deep_equal ?d ?d"
    "Validate_object ?u False = Inr ()"
    "Validate_validateUpdateObject ?u NoOptions = Inr ()"
    "list_ex is_operator_key (object_keys ?u)"
    by code_simp+
  have g: "\<not> is_string ?f" "validateFilter ?f = Inr ()" "\<not> is_id_filter ?f"
    "findByQuery example_deps (documents example_loaded) ?f = Inr (Some ?d)"
    "get_prop ?d ''_id'' = Some (JStr ''a'')"
    by code_simp+
  note t = update_by_id_unchanged_reports_no_match [OF h]
  have c: "updateOne example_deps ?f ?u example_loaded =
             (Inr (UpdateResult 1 0 True), example_loaded)"
    using t [THEN conjunct2, THEN conjunct2, THEN spec, of ?f] g by blast
  show ?thesis
    using h g t [THEN conjunct1] t [THEN conjunct2, THEN conjunct1] c
    by (intro conjI)
qed

end
